theory Spec2Isabelle
  imports Complex_Main
begin

section \<open>Floating-point values and the builtin \<open>float()\<close>\<close>

text \<open>
  The scorer of \<^verbatim>\<open>app.py\<close> computes with binary64 floats. They are modelled as the
  real numbers together with the three special values of IEEE 754: a finite float is
  the real it denotes (rounding is not modelled), and the special values follow the
  IEEE rules that Python and numpy implement.
\<close>

datatype pyfloat = Fin real | PInf | NInf | NaN

fun is_fin :: "pyfloat \<Rightarrow> bool" where
  "is_fin (Fin x) = True"
| "is_fin _ = False"

fun fneg :: "pyfloat \<Rightarrow> pyfloat" where
  "fneg (Fin x) = Fin (- x)"
| "fneg PInf = NInf"
| "fneg NInf = PInf"
| "fneg NaN = NaN"

fun fadd :: "pyfloat \<Rightarrow> pyfloat \<Rightarrow> pyfloat" where
  "fadd NaN y = NaN"
| "fadd x NaN = NaN"
| "fadd (Fin x) (Fin y) = Fin (x + y)"
| "fadd PInf NInf = NaN"
| "fadd NInf PInf = NaN"
| "fadd PInf y = PInf"
| "fadd x PInf = PInf"
| "fadd NInf y = NInf"
| "fadd x NInf = NInf"

definition fsub :: "pyfloat \<Rightarrow> pyfloat \<Rightarrow> pyfloat" where
  "fsub x y = fadd x (fneg y)"

fun fabs :: "pyfloat \<Rightarrow> pyfloat" where
  "fabs (Fin x) = Fin \<bar>x\<bar>"
| "fabs PInf = PInf"
| "fabs NInf = PInf"
| "fabs NaN = NaN"

text \<open>
  Multiplication and division by a positive finite constant, the only products and
  quotients the program takes (by \<open>0.5\<close>, \<open>100\<close>, the threshold and an element count).
\<close>

fun fmulc :: "pyfloat \<Rightarrow> real \<Rightarrow> pyfloat" where
  "fmulc (Fin x) c = Fin (x * c)"
| "fmulc v c = v"

fun fdivc :: "pyfloat \<Rightarrow> real \<Rightarrow> pyfloat" where
  "fdivc (Fin x) c = Fin (x / c)"
| "fdivc v c = v"

text \<open>The comparison \<open>x < y\<close>: false as soon as one side is NaN.\<close>

fun fless :: "pyfloat \<Rightarrow> pyfloat \<Rightarrow> bool" where
  "fless NaN y = False"
| "fless x NaN = False"
| "fless (Fin x) (Fin y) = (x < y)"
| "fless x NInf = False"
| "fless NInf y = True"
| "fless PInf y = False"
| "fless x PInf = True"

definition fgreater :: "pyfloat \<Rightarrow> pyfloat \<Rightarrow> bool" where
  "fgreater x y = fless y x"

text \<open>Python's \<open>min(a, b)\<close> keeps \<open>a\<close> unless \<open>b < a\<close>.\<close>

definition py_min :: "pyfloat \<Rightarrow> pyfloat \<Rightarrow> pyfloat" where
  "py_min a b = (if fless b a then b else a)"

subsection \<open>Parsing a text field: \<open>float(s)\<close>\<close>

text \<open>
  A Python string is the list of its code points. \<open>ascii\<close> reads a literal of the
  source as such a list, and \<open>ord\<close> one character.
\<close>

type_synonym str = "nat list"

definition ord :: "char \<Rightarrow> nat" where
  "ord c = of_char c"

definition ascii :: "string \<Rightarrow> str" where
  "ascii s = map of_char s"

text \<open>
  \<open>float\<close> first brings a string that is not pure ASCII to ASCII: a code point from
  127 on becomes a space when it is Unicode whitespace, the ASCII digit of its value
  when it is a decimal digit of some script, and \<open>?\<close> (which no number contains)
  otherwise. The decimal digits of Unicode 14 come in 65 runs of ten; \<open>digit_zeros\<close>
  lists the zero of each run.
\<close>

definition unicode_space :: "nat \<Rightarrow> bool" where
  "unicode_space c =
     (c = 133 \<or> c = 160 \<or> c = 5760 \<or> (8192 \<le> c \<and> c \<le> 8202) \<or> c = 8232 \<or> c = 8233
      \<or> c = 8239 \<or> c = 8287 \<or> c = 12288)"

definition digit_zeros :: "nat list" where
  "digit_zeros =
     [1632, 1776, 1984, 2406, 2534, 2662, 2790, 2918, 3046, 3174, 3302, 3430, 3558,
      3664, 3792, 3872, 4160, 4240, 6112, 6160, 6470, 6608, 6784, 6800, 6992, 7088,
      7232, 7248, 42528, 43216, 43264, 43472, 43504, 43600, 44016, 65296, 66720,
      68912, 69734, 69872, 69942, 70096, 70384, 70736, 70864, 71248, 71360, 71472,
      71904, 72016, 72784, 73040, 73120, 92768, 92864, 93008, 120782, 120792, 120802,
      120812, 120822, 123200, 123632, 125264, 130032]"

definition unicode_decimal :: "nat \<Rightarrow> nat option" where
  "unicode_decimal c =
     (case filter (\<lambda>z. z \<le> c \<and> c < z + 10) digit_zeros of
        [] \<Rightarrow> None
      | z # _ \<Rightarrow> Some (c - z))"

definition to_ascii_char :: "nat \<Rightarrow> nat" where
  "to_ascii_char c =
     (if c < 127 then c
      else if unicode_space c then 32
      else (case unicode_decimal c of
              Some d \<Rightarrow> 48 + d
            | None \<Rightarrow> 63))"

definition transform_decimal_and_space :: "str \<Rightarrow> str" where
  "transform_decimal_and_space s =
     (if list_all (\<lambda>c. c < 128) s then s else map to_ascii_char s)"

text \<open>
  Then \<open>float\<close> strips the ASCII whitespace of C (tab, line feed, vertical tab, form
  feed, carriage return, space) from both ends, reads an optional sign, and then either
  one of the names \<open>inf\<close>, \<open>infinity\<close>, \<open>nan\<close> (in any case) or a decimal number:
  digits with single underscores between them, an optional fraction and an optional
  exponent. Anything else is a \<open>ValueError\<close>, modelled as \<open>None\<close>. A decimal beyond the
  binary64 range becomes an infinity.
\<close>

definition is_space :: "nat \<Rightarrow> bool" where
  "is_space c = ((9 \<le> c \<and> c \<le> 13) \<or> c = 32)"

definition py_strip :: "str \<Rightarrow> str" where
  "py_strip s = rev (dropWhile is_space (rev (dropWhile is_space s)))"

definition is_digit :: "nat \<Rightarrow> bool" where
  "is_digit c = (48 \<le> c \<and> c \<le> 57)"

definition digit_val :: "nat \<Rightarrow> nat" where
  "digit_val c = c - 48"

definition to_lower :: "nat \<Rightarrow> nat" where
  "to_lower c = (if 65 \<le> c \<and> c \<le> 90 then c + 32 else c)"

text \<open>
  \<open>digitpart after s\<close> reads the longest run \<open>digit (["_"] digit)*\<close> at the front of
  \<open>s\<close>; \<open>after\<close> says that the previous character was a digit, so that an underscore
  may follow.
\<close>

fun digitpart :: "bool \<Rightarrow> str \<Rightarrow> nat list \<times> str" where
  "digitpart after [] = ([], [])"
| "digitpart after (c # cs) =
     (if is_digit c then
        (case digitpart True cs of (ds, r) \<Rightarrow> (digit_val c # ds, r))
      else if after \<and> c = ord CHR ''_'' \<and> (case cs of [] \<Rightarrow> False | d # _ \<Rightarrow> is_digit d)
        then digitpart False cs
      else ([], c # cs))"

definition digits_value :: "nat list \<Rightarrow> nat" where
  "digits_value ds = foldl (\<lambda>a d. 10 * a + d) 0 ds"

definition float_max_bound :: real where
  "float_max_bound = (2 ^ 54 - 1) * 2 ^ 970"

definition round_overflow :: "real \<Rightarrow> pyfloat" where
  "round_overflow v =
     (if float_max_bound \<le> v then PInf
      else if v \<le> - float_max_bound then NInf
      else Fin v)"

definition parse_exponent :: "str \<Rightarrow> int option" where
  "parse_exponent s =
     (case s of
        [] \<Rightarrow> Some 0
      | c # cs \<Rightarrow>
          if c = ord CHR ''e'' \<or> c = ord CHR ''E'' then
            (let (neg, body) =
               (case cs of
                  [] \<Rightarrow> (False, [])
                | d # ds \<Rightarrow> if d = ord CHR ''-'' then (True, ds)
                            else if d = ord CHR ''+'' then (False, ds)
                            else (False, cs))
             in case digitpart False body of
                  (es, rest) \<Rightarrow>
                    if es = [] \<or> rest \<noteq> [] then None
                    else Some (if neg then - int (digits_value es) else int (digits_value es)))
          else None)"

definition parse_decimal :: "str \<Rightarrow> real option" where
  "parse_decimal s =
     (case digitpart False s of
        (ip, r1) \<Rightarrow>
          (let (fp, r2) =
             (case r1 of
                [] \<Rightarrow> ([], r1)
              | c # cs \<Rightarrow> if c = ord CHR ''.'' then digitpart False cs else ([], r1))
           in if ip = [] \<and> fp = [] then None
              else
                (case parse_exponent r2 of
                   None \<Rightarrow> None
                 | Some e \<Rightarrow>
                     Some (real (digits_value (ip @ fp))
                           * (if 0 \<le> e then 10 ^ nat e else 1 / 10 ^ nat (- e))
                           / 10 ^ length fp))))"

definition py_float :: "str \<Rightarrow> pyfloat option" where
  "py_float s =
     (let t = py_strip (transform_decimal_and_space s);
          (neg, body) =
            (case t of
               [] \<Rightarrow> (False, [])
             | c # cs \<Rightarrow> if c = ord CHR ''-'' then (True, cs)
                         else if c = ord CHR ''+'' then (False, cs)
                         else (False, t));
          name = map to_lower body
      in if name = ascii ''inf'' \<or> name = ascii ''infinity''
         then Some (if neg then NInf else PInf)
         else if name = ascii ''nan'' then Some NaN
         else
           (case parse_decimal body of
              None \<Rightarrow> None
            | Some v \<Rightarrow> Some (round_overflow (if neg then - v else v))))"

section \<open>The numpy operations of the scorer\<close>

type_synonym matrix = "pyfloat list list"
type_synonym tensor = "pyfloat list list list"

text \<open>\<open>np.repeat(a, n, axis=0)\<close>: every row of \<open>a\<close>, \<open>n\<close> times in a row.\<close>

definition np_repeat :: "'a list \<Rightarrow> nat \<Rightarrow> 'a list" where
  "np_repeat rows n = concat (map (replicate n) rows)"

text \<open>\<open>chunks k xs\<close> cuts \<open>xs\<close> into consecutive pieces of \<open>k\<close> elements.\<close>

function chunks :: "nat \<Rightarrow> 'a list \<Rightarrow> 'a list list" where
  "chunks k xs = (if k = 0 \<or> xs = [] then [] else take k xs # chunks k (drop k xs))"
  by pat_completeness auto
termination
  by (relation "measure (\<lambda>(k, xs). length xs)") auto

declare chunks.simps [simp del]

text \<open>
  \<open>a.reshape(d1, d2, d3)\<close> of a two-dimensional array: the elements in row-major
  order, cut into \<open>d1\<close> blocks of \<open>d2\<close> rows of \<open>d3\<close> elements. numpy raises
  \<open>ValueError\<close> (here \<open>None\<close>) when the number of elements is not \<open>d1 * d2 * d3\<close>.
\<close>

definition np_reshape :: "matrix \<Rightarrow> nat \<Rightarrow> nat \<Rightarrow> nat \<Rightarrow> tensor option" where
  "np_reshape a d1 d2 d3 =
     (let flat = concat a
      in if length flat = d1 * d2 * d3 then Some (chunks d2 (chunks d3 flat)) else None)"

text \<open>
  \<open>a - b\<close> and \<open>np.abs\<close>, element by element. The difference is the one of two arrays
  of the same shape; for other shapes numpy broadcasts or raises, which is not
  modelled, and the statements about a difference assume that the model returns an
  array of the shape it was given.
\<close>

definition np_sub :: "tensor \<Rightarrow> tensor \<Rightarrow> tensor" where
  "np_sub a b = map2 (map2 (map2 fsub)) a b"

definition np_abs :: "tensor \<Rightarrow> tensor" where
  "np_abs a = map (map (map fabs)) a"

fun fsum :: "pyfloat list \<Rightarrow> pyfloat" where
  "fsum [] = Fin 0"
| "fsum (x # xs) = fadd x (fsum xs)"

text \<open>\<open>np.mean\<close> over all elements; the mean of an empty array is NaN.\<close>

definition np_mean :: "tensor \<Rightarrow> pyfloat" where
  "np_mean a =
     (let flat = concat (concat a)
      in if flat = [] then NaN else fdivc (fsum flat) (real (length flat)))"

definition shape3 :: "tensor \<Rightarrow> nat list list" where
  "shape3 a = map (map length) a"

definition finite3 :: "tensor \<Rightarrow> bool" where
  "finite3 a = list_all (list_all (list_all is_fin)) a"

section \<open>The anomaly checker of \<^verbatim>\<open>app.py\<close>\<close>

definition TIME_STEPS :: nat where
  "TIME_STEPS = 30"

definition DEFAULT_THRESHOLD :: real where
  "DEFAULT_THRESHOLD = 15 / 100"

datatype color = GREEN | RED | BLUE | GREY_400 | GREY_500

text \<open>
  The text of a label: a literal string, or one of the three format strings of
  \<open>analyze_inputs\<close> together with the float it formats
  (\<open>RawErrorText x\<close> is \<^verbatim>\<open>f"Raw Reconstruction Error: {x:.4f}"\<close>,
  \<open>SeverityText x\<close> is \<^verbatim>\<open>f"Severity: {x:.1f}% (Above Normal Limits)"\<close>,
  \<open>DeviationText x\<close> is \<^verbatim>\<open>f"Deviation: {x:.1f}% (Within Normal Limits)"\<close>).
\<close>

datatype label =
    Plain string
  | RawErrorText pyfloat
  | SeverityText pyfloat
  | DeviationText pyfloat

text \<open>
  The model and the scaler are opaque loaded objects; only \<open>model.predict\<close> and
  \<open>scaler.transform\<close> are used, as functions on arrays.
\<close>

record checker =
  model :: "(tensor \<Rightarrow> tensor) option"
  scaler :: "(matrix \<Rightarrow> matrix) option"
  status :: string
  status_color :: color
  txt_temp :: str
  txt_hum :: str
  txt_press :: str
  txt_soil :: str
  lbl_result :: label
  lbl_result_color :: "color option"
  lbl_score :: label
  progress_value :: pyfloat
  progress_color :: color
  lbl_loss :: label
  result_card_visible :: bool

text \<open>
  A file on disk: absent, present but failing to load with a message, or loading to a
  value.
\<close>

datatype 'a artifact = Missing | Broken string | Stored 'a

fun exists :: "'a artifact \<Rightarrow> bool" where
  "exists Missing = False"
| "exists _ = True"

fun loadable :: "'a artifact \<Rightarrow> bool" where
  "loadable (Stored x) = True"
| "loadable _ = False"

text \<open>
  \<open>load_assets\<close> after \<open>__init__\<close> has set both attributes to \<open>None\<close>: the model is
  loaded first, and an exception of either load leaves what was not yet assigned at
  \<open>None\<close>. The result is the model, the scaler, the status and its colour.
\<close>

definition load_assets ::
  "(tensor \<Rightarrow> tensor) artifact \<Rightarrow> (matrix \<Rightarrow> matrix) artifact \<Rightarrow>
   (tensor \<Rightarrow> tensor) option \<times> (matrix \<Rightarrow> matrix) option \<times> string \<times> color" where
  "load_assets model_file scaler_file =
     (if exists model_file \<and> exists scaler_file then
        (case model_file of
           Stored m \<Rightarrow>
             (case scaler_file of
                Stored s \<Rightarrow> (Some m, Some s, ''Ready'', GREEN)
              | Broken e \<Rightarrow> (Some m, None, ''Error loading files: '' @ e, RED)
              | Missing \<Rightarrow> (Some m, None, ''Error: Model/Scaler files missing!'', RED))
         | Broken e \<Rightarrow> (None, None, ''Error loading files: '' @ e, RED)
         | Missing \<Rightarrow> (None, None, ''Error: Model/Scaler files missing!'', RED))
      else (None, None, ''Error: Model/Scaler files missing!'', RED))"

text \<open>The control after \<open>__init__\<close> and \<open>build\<close>, with the widgets at their defaults.\<close>

definition AnomalyChecker ::
  "(tensor \<Rightarrow> tensor) artifact \<Rightarrow> (matrix \<Rightarrow> matrix) artifact \<Rightarrow> checker" where
  "AnomalyChecker model_file scaler_file =
     (case load_assets model_file scaler_file of
        (m, s, st, col) \<Rightarrow>
          \<lparr> model = m, scaler = s, status = st, status_color = col,
            txt_temp = ascii ''25.0'', txt_hum = ascii ''50.0'',
            txt_press = ascii ''1013.0'', txt_soil = ascii ''800.0'',
            lbl_result = Plain ''Waiting for input...'', lbl_result_color = None,
            lbl_score = Plain ''Anomaly Score: 0%'',
            progress_value = Fin 0, progress_color = BLUE,
            lbl_loss = Plain ''Raw Reconstruction Error: 0.0000'',
            result_card_visible = False \<rparr>)"

text \<open>
  The calls a run of \<open>analyze_inputs\<close> makes to its collaborators, in order: the
  builtin \<open>float\<close>, \<open>scaler.transform\<close>, \<open>model.predict\<close> and \<open>self.update\<close>.
\<close>

datatype call =
    FloatCall str
  | TransformCall matrix
  | PredictCall tensor
  | UpdateCall

definition show_not_loaded :: "checker \<Rightarrow> checker" where
  "show_not_loaded self =
     self\<lparr> lbl_result := Plain ''Model not loaded!'',
           lbl_result_color := Some RED,
           result_card_visible := True \<rparr>"

text \<open>The handler of \<open>except ValueError\<close>.\<close>

definition show_invalid :: "checker \<Rightarrow> checker" where
  "show_invalid self =
     self\<lparr> lbl_result := Plain ''Invalid Input: Please enter numbers only.'',
           lbl_result_color := Some RED,
           result_card_visible := True \<rparr>"

text \<open>Steps 2 and 3 of the \<open>try\<close> block: the batch given to the model.\<close>

definition input_batch_of :: "(matrix \<Rightarrow> matrix) \<Rightarrow> pyfloat list \<Rightarrow> tensor option" where
  "input_batch_of sc vals =
     (let input_vector = [vals];
          scaled_vector = sc input_vector;
          input_sequence = np_repeat scaled_vector TIME_STEPS
      in np_reshape input_sequence 1 TIME_STEPS 4)"

text \<open>Steps 4 and 5: the mean absolute error of the reconstruction.\<close>

definition mae_loss_of :: "(tensor \<Rightarrow> tensor) \<Rightarrow> tensor \<Rightarrow> pyfloat" where
  "mae_loss_of m input_batch =
     (let reconstruction = m input_batch
      in np_mean (np_abs (np_sub reconstruction input_batch)))"

text \<open>Step 6: the labels, the colours and the progress bar.\<close>

definition show_result :: "checker \<Rightarrow> pyfloat \<Rightarrow> checker" where
  "show_result self mae_loss =
     (let score_percent = fdivc mae_loss DEFAULT_THRESHOLD;
          self1 = self\<lparr> lbl_loss := RawErrorText mae_loss,
                        result_card_visible := True \<rparr>
      in if fgreater mae_loss (Fin DEFAULT_THRESHOLD) then
           self1\<lparr> lbl_result := Plain ''ANOMALY DETECTED'',
                  lbl_result_color := Some RED,
                  lbl_score := SeverityText (fmulc score_percent 100),
                  progress_color := RED,
                  progress_value := py_min (fmulc score_percent (1 / 2)) (Fin 1) \<rparr>
         else
           self1\<lparr> lbl_result := Plain ''STATUS NORMAL'',
                  lbl_result_color := Some GREEN,
                  lbl_score := DeviationText (fmulc score_percent 100),
                  progress_color := GREEN,
                  progress_value := score_percent \<rparr>)"

text \<open>
  The \<open>try\<close> block after the four conversions: a \<open>ValueError\<close> of \<open>reshape\<close> goes to
  the handler like one of \<open>float\<close>.
\<close>

definition run_scoring ::
  "checker \<Rightarrow> (tensor \<Rightarrow> tensor) \<Rightarrow> (matrix \<Rightarrow> matrix) \<Rightarrow> pyfloat list \<Rightarrow>
   checker \<times> call list" where
  "run_scoring self m sc vals =
     (case input_batch_of sc vals of
        None \<Rightarrow> (show_invalid self, [TransformCall [vals], UpdateCall])
      | Some input_batch \<Rightarrow>
          (show_result self (mae_loss_of m input_batch),
           [TransformCall [vals], PredictCall input_batch, UpdateCall]))"

definition analyze_inputs :: "checker \<Rightarrow> checker \<times> call list" where
  "analyze_inputs self =
     (case model self of
        None \<Rightarrow> (show_not_loaded self, [UpdateCall])
      | Some m \<Rightarrow>
     (case scaler self of
        None \<Rightarrow> (show_not_loaded self, [UpdateCall])
      | Some sc \<Rightarrow>
     (case py_float (txt_temp self) of
        None \<Rightarrow> (show_invalid self, [FloatCall (txt_temp self), UpdateCall])
      | Some val_temp \<Rightarrow>
     (case py_float (txt_hum self) of
        None \<Rightarrow> (show_invalid self,
                  [FloatCall (txt_temp self), FloatCall (txt_hum self), UpdateCall])
      | Some val_hum \<Rightarrow>
     (case py_float (txt_press self) of
        None \<Rightarrow> (show_invalid self,
                  [FloatCall (txt_temp self), FloatCall (txt_hum self),
                   FloatCall (txt_press self), UpdateCall])
      | Some val_press \<Rightarrow>
     (case py_float (txt_soil self) of
        None \<Rightarrow> (show_invalid self,
                  [FloatCall (txt_temp self), FloatCall (txt_hum self),
                   FloatCall (txt_press self), FloatCall (txt_soil self), UpdateCall])
      | Some val_soil \<Rightarrow>
          (case run_scoring self m sc [val_temp, val_hum, val_press, val_soil] of
             (self', calls) \<Rightarrow>
               (self',
                [FloatCall (txt_temp self), FloatCall (txt_hum self),
                 FloatCall (txt_press self), FloatCall (txt_soil self)] @ calls))))))))"

section \<open>Predicates used in the statements\<close>

text \<open>A finite float that is not negative.\<close>

fun nonneg_fin :: "pyfloat \<Rightarrow> bool" where
  "nonneg_fin (Fin x) = (0 \<le> x)"
| "nonneg_fin _ = False"

text \<open>A float that is a number between 0 and 1.\<close>

fun in_unit_interval :: "pyfloat \<Rightarrow> bool" where
  "in_unit_interval (Fin x) = (0 \<le> x \<and> x \<le> 1)"
| "in_unit_interval _ = False"

section \<open>The scoring algorithm in the words of the specification\<close>

text \<open>
  The input of the model as the specification describes it: one sequence of
  \<open>TIME_STEPS\<close> positions, each holding the one normalized reading.
\<close>

definition spec_repeated_sequence :: "pyfloat list \<Rightarrow> tensor" where
  "spec_repeated_sequence normalized = [replicate TIME_STEPS normalized]"

text \<open>
  The raw error as the specification describes it: the mean, over all time steps and
  all four features, of the absolute differences between the reconstructed and the
  input sequence.
\<close>

definition spec_raw_error :: "tensor \<Rightarrow> tensor \<Rightarrow> pyfloat" where
  "spec_raw_error reconstructed input_seq =
     fdivc (fsum [fabs (fsub (reconstructed ! 0 ! t ! f) (input_seq ! 0 ! t ! f)).
                   t \<leftarrow> [0..<TIME_STEPS], f \<leftarrow> [0..<4]])
           (real (TIME_STEPS * 4))"

section \<open>An affine scaler\<close>

text \<open>
  Modelled from the spec: the fitted scaler is a pickled object (\<^verbatim>\<open>iot_scaler.pkl\<close>)
  that is not part of the sources. The specification describes it as an affine
  transform fixed at training time and applied to each row independently: feature
  \<open>j\<close> of every row is multiplied by the positive \<open>scale ! j\<close> and shifted by
  \<open>offset ! j\<close>.
\<close>

definition affine_row :: "real list \<Rightarrow> real list \<Rightarrow> pyfloat list \<Rightarrow> pyfloat list" where
  "affine_row scale offset row =
     map2 (\<lambda>x (a, b). fadd (fmulc x a) (Fin b)) row (zip scale offset)"

definition affine_scaler :: "real list \<Rightarrow> real list \<Rightarrow> matrix \<Rightarrow> matrix" where
  "affine_scaler scale offset rows = map (affine_row scale offset) rows"

section \<open>The serial log collector of \<^verbatim>\<open>Data/FetchData.py\<close>\<close>

text \<open>A line read from the serial port is a list of bytes.\<close>

type_synonym bytes = "nat list"

text \<open>
  \<open>data.decode('utf-8')\<close>: strict UTF-8, which rejects stray and missing continuation
  bytes, overlong forms, surrogates and code points beyond \<open>U+10FFFF\<close>. \<open>None\<close> is
  \<open>UnicodeDecodeError\<close>. The decoder reads byte by byte: \<open>k\<close> continuation bytes
  are still expected for the code point begun, \<open>acc\<close> holds the bits read so far, and
  the next continuation byte must lie between \<open>lo\<close> and \<open>hi\<close>.
\<close>

fun utf8_run :: "nat \<Rightarrow> nat \<Rightarrow> nat \<Rightarrow> nat \<Rightarrow> bytes \<Rightarrow> str option" where
  "utf8_run k acc lo hi [] = (if k = 0 then Some [] else None)"
| "utf8_run k acc lo hi (b # bs) =
     (if k = 0 then
        (if b < 128 then map_option ((#) b) (utf8_run 0 0 128 191 bs)
         else if 194 \<le> b \<and> b \<le> 223 then utf8_run 1 (b - 192) 128 191 bs
         else if 224 \<le> b \<and> b \<le> 239 then
           utf8_run 2 (b - 224) (if b = 224 then 160 else 128)
             (if b = 237 then 159 else 191) bs
         else if 240 \<le> b \<and> b \<le> 244 then
           utf8_run 3 (b - 240) (if b = 240 then 144 else 128)
             (if b = 244 then 143 else 191) bs
         else None)
      else if lo \<le> b \<and> b \<le> hi then
        (if k = 1 then map_option ((#) (acc * 64 + (b - 128))) (utf8_run 0 0 128 191 bs)
         else utf8_run (k - 1) (acc * 64 + (b - 128)) 128 191 bs)
      else None)"

definition utf8_decode :: "bytes \<Rightarrow> str option" where
  "utf8_decode data = utf8_run 0 0 128 191 data"

text \<open>The characters \<open>str.strip()\<close> removes from both ends.\<close>

definition is_whitespace :: "nat \<Rightarrow> bool" where
  "is_whitespace c =
     ((9 \<le> c \<and> c \<le> 13) \<or> (28 \<le> c \<and> c \<le> 32) \<or> c = 133 \<or> c = 160 \<or> c = 5760
      \<or> (8192 \<le> c \<and> c \<le> 8202) \<or> c = 8232 \<or> c = 8233 \<or> c = 8239 \<or> c = 8287
      \<or> c = 12288)"

definition str_strip :: "str \<Rightarrow> str" where
  "str_strip s = rev (dropWhile is_whitespace (rev (dropWhile is_whitespace s)))"

text \<open>
  \<open>s.replace(old, new)\<close> for a non-empty \<open>old\<close>: the occurrences of \<open>old\<close> found from
  left to right, without overlap, are replaced.
\<close>

function replace_from :: "str \<Rightarrow> str \<Rightarrow> str \<Rightarrow> str" where
  "replace_from old new s =
     (if s = [] \<or> old = [] then s
      else if take (length old) s = old
        then new @ replace_from old new (drop (length old) s)
      else hd s # replace_from old new (tl s))"
  by pat_completeness auto
termination
  by (relation "measure (\<lambda>(old, new, s). length s)") auto

declare replace_from.simps [simp del]

definition str_replace :: "str \<Rightarrow> str \<Rightarrow> str \<Rightarrow> str" where
  "str_replace s old new =
     (if old = [] then new @ concat (map (\<lambda>c. c # new) s) else replace_from old new s)"

text \<open>\<open>s.split(sep)\<close> for a separator of one character.\<close>

fun str_split :: "nat \<Rightarrow> str \<Rightarrow> str list" where
  "str_split sep [] = [ [] ]"
| "str_split sep (c # cs) =
     (if c = sep then [] # str_split sep cs
      else (case str_split sep cs of
              [] \<Rightarrow> [ [c] ]
            | part # parts \<Rightarrow> (c # part) # parts))"

text \<open>
  \<open>datetime.datetime.now()\<close> and its format \<^verbatim>\<open>"%Y-%m-%d %H:%M:%S"\<close>: the fields in
  decimal, padded with zeros to four digits for the year and two for the others.
\<close>

record datetime =
  year :: nat
  month :: nat
  day :: nat
  hour :: nat
  minute :: nat
  second :: nat

fun dec_pad :: "nat \<Rightarrow> nat \<Rightarrow> str" where
  "dec_pad 0 n = []"
| "dec_pad (Suc w) n = dec_pad w (n div 10) @ [48 + n mod 10]"

definition strftime :: "datetime \<Rightarrow> str" where
  "strftime now =
     dec_pad 4 (year now) @ ascii ''-'' @ dec_pad 2 (month now) @ ascii ''-''
     @ dec_pad 2 (day now) @ ascii '' '' @ dec_pad 2 (hour now) @ ascii '':''
     @ dec_pad 2 (minute now) @ ascii '':'' @ dec_pad 2 (second now)"

text \<open>\<open>data.startswith(prefix)\<close>.\<close>

definition startswith :: "bytes \<Rightarrow> bytes \<Rightarrow> bool" where
  "startswith data prefix = (take (length prefix) data = prefix)"

text \<open>
  The state the loop works on: the text of \<^verbatim>\<open>Data/logs.csv\<close> and what was printed.
\<close>

record collector =
  log_file :: str
  printed :: "str list list"

datatype collector_error = UnicodeDecodeError

text \<open>
  One round of the \<open>while True\<close> loop, for the line \<open>data\<close> that \<open>readline\<close> returned
  and the time \<open>now\<close> of the clock. An exception ends the process.
\<close>

definition collector_step ::
  "datetime \<Rightarrow> bytes \<Rightarrow> collector \<Rightarrow> collector_error + collector" where
  "collector_step now data st =
     (if startswith data (ascii ''[Logs] '') then
        (let timestamp = strftime now
         in case utf8_decode data of
              None \<Rightarrow> Inl UnicodeDecodeError
            | Some text \<Rightarrow>
                (let newdata = str_strip text;
                     newdata = timestamp @ ascii '','' @ newdata;
                     newdata = str_replace newdata (ascii '' '') [];
                     newdata = str_replace newdata (ascii ''[Logs]'') [];
                     actualdata = str_split 44 newdata
                 in Inr (st\<lparr> log_file := log_file st @ newdata @ [10],
                             printed := printed st @ [actualdata] \<rparr>)))
      else Inr st)"

text \<open>The loop on the lines read so far, each with the time at which it was handled.\<close>

fun collector_run ::
  "(datetime \<times> bytes) list \<Rightarrow> collector \<Rightarrow> collector_error + collector" where
  "collector_run [] st = Inr st"
| "collector_run ((now, data) # reads) st =
     (case collector_step now data st of
        Inl e \<Rightarrow> Inl e
      | Inr st' \<Rightarrow> collector_run reads st')"

text \<open>
  The payload of a decoded line as it reaches the file: the stripped text with every
  space and then every \<open>[Logs]\<close> deleted.
\<close>

definition payload_of :: "str \<Rightarrow> str" where
  "payload_of text =
     str_replace (str_replace (str_strip text) (ascii '' '') []) (ascii ''[Logs]'') []"


text \<open>The comparison \<open>x >= y\<close> of two floats: false as soon as one side is NaN.\<close>

definition fge :: "pyfloat \<Rightarrow> pyfloat \<Rightarrow> bool" where
  "fge x y = (fless y x \<or> (x = y \<and> x \<noteq> NaN))"

text \<open>
  Two sample collaborators: a scaler that leaves its input as it is, and a model whose
  reconstruction has the shape of its input and NaN at every position.
\<close>

definition identity_scaler :: "matrix \<Rightarrow> matrix" where
  "identity_scaler a = a"

definition nan_model :: "tensor \<Rightarrow> tensor" where
  "nan_model b = map (map (map (\<lambda>v. NaN))) b"

section \<open>Evaluation rules\<close>

lemmas float_eval =
  py_float_def transform_decimal_and_space_def to_ascii_char_def unicode_space_def
  unicode_decimal_def digit_zeros_def
  py_strip_def is_space_def parse_decimal_def parse_exponent_def
  is_digit_def digit_val_def digits_value_def round_overflow_def float_max_bound_def
  to_lower_def ord_def ascii_def

text \<open>
  Some fields: the separator controls \<open>U+001C\<close> to \<open>U+001F\<close> are not stripped, while
  whitespace and decimal digits beyond ASCII are read.
\<close>

lemma py_float_examples:
  "py_float (28 # ascii ''25.0'') = None"
  "py_float (ascii ''25.0'' @ [31]) = None"
  "py_float (133 # ascii ''25.0'' @ [160]) = Some (Fin 25)"
  "py_float [1633, 1634] = Some (Fin 12)"
  "py_float (ascii ''1_000.5e-2'') = Some (Fin (2001 / 200))"
  "py_float (ascii ''-Infinity'') = Some NInf"
  "py_float (ascii ''1e400'') = Some PInf"
  "py_float [] = None"
  by (simp_all add: float_eval)

section \<open>Arrays: reshaping, shapes and sums\<close>

lemma chunks_replicate_rows:
  "row \<noteq> [] \<Longrightarrow> chunks (length row) (concat (replicate n row)) = replicate n row"
proof (induction n)
  case 0
  then show ?case by (simp add: chunks.simps)
next
  case (Suc n)
  then show ?case by (subst chunks.simps) simp
qed

lemma chunks_whole: "xs \<noteq> [] \<Longrightarrow> chunks (length xs) xs = [xs]"
  by (subst chunks.simps) (simp add: chunks.simps)

lemma length_chunks: "length xs = n * k \<Longrightarrow> 0 < k \<Longrightarrow> length (chunks k xs) = n"
proof (induction n arbitrary: xs)
  case 0
  then show ?case by (simp add: chunks.simps)
next
  case (Suc n)
  then have "xs \<noteq> []" by auto
  moreover have "length (drop k xs) = n * k" using Suc.prems by simp
  ultimately show ?case using Suc by (subst chunks.simps) simp
qed

lemma chunks_row_length:
  "length xs = n * k \<Longrightarrow> 0 < k \<Longrightarrow> row \<in> set (chunks k xs) \<Longrightarrow> length row = k"
proof (induction n arbitrary: xs)
  case 0
  then show ?case by (simp add: chunks.simps)
next
  case (Suc n)
  then have ne: "xs \<noteq> []" by auto
  have d: "length (drop k xs) = n * k" using Suc.prems by simp
  have "row = take k xs \<or> row \<in> set (chunks k (drop k xs))"
    using Suc.prems(3) ne Suc.prems(2) by (subst (asm) chunks.simps) auto
  then show ?case
  proof
    assume "row = take k xs"
    then show ?thesis using Suc.prems by simp
  next
    assume "row \<in> set (chunks k (drop k xs))"
    then show ?thesis using Suc.IH [OF d Suc.prems(2)] by simp
  qed
qed

lemma map_length_chunks:
  "length xs = n * k \<Longrightarrow> 0 < k \<Longrightarrow> map length (chunks k xs) = replicate n k"
proof (rule replicate_eqI)
  assume "length xs = n * k" "0 < k"
  then show "length (map length (chunks k xs)) = n"
    by (simp add: length_chunks)
next
  fix y
  assume "length xs = n * k" "0 < k" "y \<in> set (map length (chunks k xs))"
  then show "y = k"
    using chunks_row_length [of xs n k] by auto
qed

lemma reshape_shape:
  assumes "np_reshape a 1 TIME_STEPS 4 = Some b"
  shows "shape3 b = [replicate TIME_STEPS 4]"
proof -
  let ?flat = "concat a"
  from assms have len: "length ?flat = TIME_STEPS * 4"
    and b: "b = chunks TIME_STEPS (chunks 4 ?flat)"
    by (auto simp: np_reshape_def Let_def split: if_splits)
  have rows: "map length (chunks 4 ?flat) = replicate TIME_STEPS 4"
    using len by (simp add: map_length_chunks)
  have n: "length (chunks 4 ?flat) = TIME_STEPS"
    using len by (simp add: length_chunks)
  then have "chunks 4 ?flat \<noteq> []"
    by (auto simp: TIME_STEPS_def)
  then have "chunks (length (chunks 4 ?flat)) (chunks 4 ?flat) = [chunks 4 ?flat]"
    by (rule chunks_whole)
  then have "b = [chunks 4 ?flat]"
    using b n by simp
  then show ?thesis
    using rows by (simp add: shape3_def)
qed

lemma length_concat_replicate: "length (concat (replicate n row)) = n * length row"
  by (induction n) simp_all

lemma input_batch_single_row:
  assumes "sc [vals] = [row]" and "length row = 4"
  shows "input_batch_of sc vals = Some [replicate TIME_STEPS row]"
proof -
  have ne: "row \<noteq> []" using assms(2) by auto
  have c4: "chunks 4 (concat (replicate TIME_STEPS row)) = replicate TIME_STEPS row"
    using chunks_replicate_rows [OF ne, of TIME_STEPS] assms(2) by simp
  have "replicate TIME_STEPS row \<noteq> []"
    by (simp add: TIME_STEPS_def)
  then have "chunks (length (replicate TIME_STEPS row)) (replicate TIME_STEPS row)
             = [replicate TIME_STEPS row]"
    by (rule chunks_whole)
  then have c30: "chunks TIME_STEPS (replicate TIME_STEPS row) = [replicate TIME_STEPS row]"
    by simp
  have len: "length (concat (replicate TIME_STEPS row)) = TIME_STEPS * 4"
    using assms(2) by (simp add: length_concat_replicate)
  show ?thesis
    using assms(1) c4 c30 len
    by (simp add: input_batch_of_def np_repeat_def np_reshape_def)
qed

lemma nonneg_abs_sub: "is_fin p \<Longrightarrow> is_fin q \<Longrightarrow> nonneg_fin (fabs (fsub p q))"
  by (cases p; cases q) (simp_all add: fsub_def)

lemma nonneg_row:
  "list_all is_fin x \<Longrightarrow> list_all is_fin y \<Longrightarrow> list_all nonneg_fin (map fabs (map2 fsub x y))"
proof (induction x arbitrary: y)
  case Nil
  then show ?case by simp
next
  case (Cons a x)
  then show ?case by (cases y) (simp_all add: nonneg_abs_sub)
qed

lemma nonneg_matrix:
  "list_all (list_all is_fin) x \<Longrightarrow> list_all (list_all is_fin) y \<Longrightarrow>
   list_all (list_all nonneg_fin) (map (map fabs) (map2 (map2 fsub) x y))"
proof (induction x arbitrary: y)
  case Nil
  then show ?case by simp
next
  case (Cons a x)
  then show ?case by (cases y) (simp_all add: nonneg_row del: map_map)
qed

lemma nonneg_tensor:
  "finite3 a \<Longrightarrow> finite3 b \<Longrightarrow>
   list_all (list_all (list_all nonneg_fin)) (np_abs (np_sub a b))"
  unfolding finite3_def np_abs_def np_sub_def
proof (induction a arbitrary: b)
  case Nil
  then show ?case by simp
next
  case (Cons x a)
  then show ?case by (cases b) (simp_all add: nonneg_matrix del: map_map)
qed

lemma nonneg_fadd: "nonneg_fin x \<Longrightarrow> nonneg_fin y \<Longrightarrow> nonneg_fin (fadd x y)"
  by (cases x; cases y) simp_all

lemma nonneg_fsum: "list_all nonneg_fin xs \<Longrightarrow> nonneg_fin (fsum xs)"
  by (induction xs) (simp_all add: nonneg_fadd)

lemma nonneg_fdivc: "nonneg_fin x \<Longrightarrow> 0 < c \<Longrightarrow> nonneg_fin (fdivc x c)"
  by (cases x) simp_all

lemma list_all_concat: "list_all (list_all P) xss \<Longrightarrow> list_all P (concat xss)"
  by (induction xss) simp_all

lemma nonneg_mean:
  assumes "list_all (list_all (list_all nonneg_fin)) d" and "concat (concat d) \<noteq> []"
  shows "nonneg_fin (np_mean d)"
proof -
  have "list_all nonneg_fin (concat (concat d))"
    using assms(1) by (simp add: list_all_concat)
  then have "nonneg_fin (fsum (concat (concat d)))"
    by (rule nonneg_fsum)
  moreover obtain v vs where "concat (concat d) = v # vs"
    using assms(2) by (cases "concat (concat d)") auto
  ultimately show ?thesis
    by (simp add: np_mean_def nonneg_fdivc)
qed

lemma shape_rows:
  "map length x = map length y \<Longrightarrow> map length (map2 (map2 f) x y) = map length y"
proof (induction x arbitrary: y)
  case Nil
  then show ?case by simp
next
  case (Cons a x)
  then show ?case by (cases y) simp_all
qed

lemma shape3_np_sub: "shape3 a = shape3 b \<Longrightarrow> shape3 (np_sub a b) = shape3 b"
  unfolding shape3_def np_sub_def
proof (induction a arbitrary: b)
  case Nil
  then show ?case by simp
next
  case (Cons x a)
  then show ?case by (cases b) (simp_all add: shape_rows del: map_map)
qed

lemma shape3_np_abs: "shape3 (np_abs a) = shape3 a"
  by (simp add: shape3_def np_abs_def comp_def)

lemma length_flat:
  assumes "shape3 d = [replicate TIME_STEPS 4]"
  shows "length (concat (concat d)) = TIME_STEPS * 4"
proof -
  from assms obtain X where d: "d = [X]" and X: "map length X = replicate TIME_STEPS 4"
    by (cases d) (auto simp: shape3_def)
  have "length (concat X) = sum_list (map length X)"
    by (simp add: length_concat)
  then show ?thesis
    using d X by (simp add: sum_list_replicate)
qed

lemma finite3_replicate: "list_all is_fin row \<Longrightarrow> finite3 [replicate n row]"
  by (simp add: finite3_def list_all_iff)

section \<open>Lemmas on a scored run\<close>

lemma analyze_inputs_scored:
  assumes "model self = Some m" and "scaler self = Some sc"
    and "py_float (txt_temp self) = Some t" and "py_float (txt_hum self) = Some h"
    and "py_float (txt_press self) = Some p" and "py_float (txt_soil self) = Some s"
    and "input_batch_of sc [t, h, p, s] = Some batch"
  shows "analyze_inputs self =
           (show_result self (mae_loss_of m batch),
            [FloatCall (txt_temp self), FloatCall (txt_hum self),
             FloatCall (txt_press self), FloatCall (txt_soil self),
             TransformCall [ [t, h, p, s] ], PredictCall batch, UpdateCall])"
  using assms by (simp add: analyze_inputs_def run_scoring_def)

lemma mae_nonneg:
  assumes "np_reshape a 1 TIME_STEPS 4 = Some batch"
    and "finite3 batch" and "finite3 (m batch)" and "shape3 (m batch) = shape3 batch"
  shows "nonneg_fin (mae_loss_of m batch)"
proof -
  let ?d = "np_abs (np_sub (m batch) batch)"
  have "shape3 batch = [replicate TIME_STEPS 4]"
    using assms(1) by (rule reshape_shape)
  then have "shape3 ?d = [replicate TIME_STEPS 4]"
    using assms(4) by (simp add: shape3_np_abs shape3_np_sub)
  then have len: "length (concat (concat ?d)) = TIME_STEPS * 4"
    by (rule length_flat)
  have ne: "concat (concat ?d) \<noteq> []"
  proof
    assume "concat (concat ?d) = []"
    then have "length (concat (concat ?d)) = 0"
      by (simp only: list.size(3))
    with len show False
      by (simp add: TIME_STEPS_def)
  qed
  have "list_all (list_all (list_all nonneg_fin)) ?d"
    using assms(2,3) by (simp add: nonneg_tensor)
  then show ?thesis
    using ne by (simp add: mae_loss_of_def nonneg_mean)
qed

text \<open>
  When the raw error is a number that is not negative, the value given to the progress
  bar lies between 0 and 1 in both branches.
\<close>

lemma progress_in_unit_interval_if_number:
  assumes "nonneg_fin mae_loss"
  shows "in_unit_interval (progress_value (show_result self mae_loss))"
  using assms
  by (cases mae_loss)
     (auto simp: show_result_def fgreater_def py_min_def Let_def DEFAULT_THRESHOLD_def)

lemma row_by_index:
  assumes "length x = k" and "length y = k"
  shows "map fabs (map2 fsub x y) = map (\<lambda>f. fabs (fsub (x ! f) (y ! f))) [0..<k]"
  using assms by (intro nth_equalityI) simp_all

lemma rows_by_index:
  assumes "map length A = replicate n k" and "map length B = replicate n k"
  shows "map (map fabs) (map2 (map2 fsub) A B)
         = map (\<lambda>t. map (\<lambda>f. fabs (fsub (A ! t ! f) (B ! t ! f))) [0..<k]) [0..<n]"
proof (rule nth_equalityI)
  have lA: "length A = n" and lB: "length B = n"
    using assms by (metis length_map length_replicate)+
  show "length (map (map fabs) (map2 (map2 fsub) A B))
        = length (map (\<lambda>t. map (\<lambda>f. fabs (fsub (A ! t ! f) (B ! t ! f))) [0..<k]) [0..<n])"
    using lA lB by simp
  fix i
  assume "i < length (map (map fabs) (map2 (map2 fsub) A B))"
  then have i: "i < n" using lA lB by simp
  have "length (A ! i) = map length A ! i" using i lA by simp
  then have a: "length (A ! i) = k" using assms(1) i by simp
  have "length (B ! i) = map length B ! i" using i lB by simp
  then have b: "length (B ! i) = k" using assms(2) i by simp
  show "map (map fabs) (map2 (map2 fsub) A B) ! i
        = map (\<lambda>t. map (\<lambda>f. fabs (fsub (A ! t ! f) (B ! t ! f))) [0..<k]) [0..<n] ! i"
    using i lA lB row_by_index [OF a b] by simp
qed

lemma mae_loss_is_spec_raw_error:
  assumes "shape3 batch = [replicate TIME_STEPS 4]" and "shape3 (m batch) = shape3 batch"
  shows "mae_loss_of m batch = spec_raw_error (m batch) batch"
proof -
  from assms(1) obtain B where B: "batch = [B]" and lB: "map length B = replicate TIME_STEPS 4"
    by (cases batch) (auto simp: shape3_def)
  from assms obtain A where A: "m batch = [A]" and lA: "map length A = replicate TIME_STEPS 4"
    by (cases "m batch") (auto simp: shape3_def)
  let ?d = "np_abs (np_sub (m batch) batch)"
  have flat: "concat (concat ?d)
        = concat (map (\<lambda>t. map (\<lambda>f. fabs (fsub (A ! t ! f) (B ! t ! f))) [0..<4]) [0..<TIME_STEPS])"
  proof -
    have "?d = [map (map fabs) (map2 (map2 fsub) A B)]"
      unfolding A unfolding B by (simp add: np_abs_def np_sub_def del: map_map)
    then show ?thesis
      using rows_by_index [OF lA lB] by simp
  qed
  have "shape3 ?d = [replicate TIME_STEPS 4]"
    using assms by (simp add: shape3_np_abs shape3_np_sub)
  then have len: "length (concat (concat ?d)) = TIME_STEPS * 4"
    by (rule length_flat)
  have ne: "concat (concat ?d) \<noteq> []"
  proof
    assume "concat (concat ?d) = []"
    then have "length (concat (concat ?d)) = 0"
      by (simp only: list.size(3))
    with len show False
      by (simp add: TIME_STEPS_def)
  qed
  then obtain v vs where vs: "concat (concat ?d) = v # vs"
    by (cases "concat (concat ?d)") auto
  have "np_mean ?d = fdivc (fsum (concat (concat ?d))) (real (length (concat (concat ?d))))"
    using vs by (simp add: np_mean_def)
  then have "np_mean ?d = fdivc (fsum (concat (concat ?d))) (real (TIME_STEPS * 4))"
    using len by simp
  then show ?thesis
    unfolding mae_loss_of_def spec_raw_error_def Let_def flat
    unfolding A unfolding B by simp
qed

section \<open>Lemmas on the collector\<close>

lemma replace_space: "replace_from [32] [] s = filter (\<lambda>c. c \<noteq> 32) s"
proof (induction s)
  case Nil
  then show ?case by (simp add: replace_from.simps)
next
  case (Cons c s)
  then show ?case by (subst replace_from.simps) auto
qed

lemma replace_skips_prefix:
  "old \<noteq> [] \<Longrightarrow> hd old \<notin> set a \<Longrightarrow>
   replace_from old new (a @ b) = a @ replace_from old new b"
proof (induction a)
  case Nil
  then show ?case by simp
next
  case (Cons x a)
  then have "take (length old) (x # a @ b) \<noteq> old"
    by (cases old) auto
  then show ?case
    using Cons by (subst replace_from.simps) simp
qed

lemma set_replace_from: "set (replace_from old [] s) \<subseteq> set s"
proof (induction old "[] :: nat list" s rule: replace_from.induct)
  case (1 old s)
  show ?case
  proof (cases "s = [] \<or> old = []")
    case True
    then show ?thesis by (subst replace_from.simps) simp
  next
    case False
    then obtain x xs where s: "s = x # xs" by (cases s) auto
    show ?thesis
    proof (cases "take (length old) s = old")
      case True
      then have "set (replace_from old [] (drop (length old) s)) \<subseteq> set (drop (length old) s)"
        using 1(1) False by simp
      moreover have "set (drop (length old) s) \<subseteq> set s"
        by (rule set_drop_subset)
      ultimately show ?thesis
        using True False by (subst replace_from.simps) auto
    next
      case no: False
      then have "set (replace_from old [] (tl s)) \<subseteq> set (tl s)"
        using 1(2) False by simp
      then show ?thesis
        using no False s by (subst replace_from.simps) auto
    qed
  qed
qed

lemma set_dec_pad: "set (dec_pad w n) \<subseteq> {48..57}"
  by (induction w n rule: dec_pad.induct) auto

lemma set_strftime: "set (strftime now) \<subseteq> {48..57} \<union> {45, 32, 58}"
  using set_dec_pad [of 4 "year now"] set_dec_pad [of 2 "month now"]
    set_dec_pad [of 2 "day now"] set_dec_pad [of 2 "hour now"]
    set_dec_pad [of 2 "minute now"] set_dec_pad [of 2 "second now"]
  unfolding strftime_def ascii_def by auto

lemma dropWhile_all: "\<forall>x\<in>set s. P x \<Longrightarrow> dropWhile P s = []"
  by (induction s) auto

lemma strip_snoc_whitespace:
  assumes "is_whitespace c"
  shows "str_strip (s @ [c]) = str_strip s"
proof (cases "\<forall>x\<in>set s. is_whitespace x")
  case True
  then have a: "dropWhile is_whitespace s = []"
    and b: "dropWhile is_whitespace (s @ [c]) = []"
    using assms by (auto intro!: dropWhile_all)
  show ?thesis
    unfolding str_strip_def a b by simp
next
  case False
  then have "dropWhile is_whitespace (s @ [c]) = dropWhile is_whitespace s @ [c]"
    by (auto simp: dropWhile_append)
  then show ?thesis
    using assms by (simp add: str_strip_def)
qed

lemma set_str_strip: "set (str_strip s) \<subseteq> set s"
  unfolding str_strip_def by (auto dest!: set_dropWhileD)


lemma run_newline:
  "utf8_run k acc lo hi bs = Some cs \<Longrightarrow> 10 \<in> set cs \<Longrightarrow>
   k = 0 \<or> 1 \<le> acc \<or> (2 \<le> k \<and> 128 < lo) \<Longrightarrow> 10 \<in> set bs"
proof (induction bs arbitrary: k acc lo hi cs)
  case Nil
  then show ?case by (simp split: if_splits)
next
  case (Cons b bs)
  show ?case
  proof (cases "k = 0")
    case True
    then show ?thesis
      using Cons.prems(1,2) Cons.IH
      by (fastforce split: if_splits)
  next
    case False
    then have inr: "lo \<le> b" "b \<le> hi"
      using Cons.prems(1) by (auto split: if_splits)
    have pos: "1 \<le> acc * 64 + (b - 128)"
      using Cons.prems(3) False inr by auto
    show ?thesis
    proof (cases "k = 1")
      case True
      then obtain t where t: "utf8_run 0 0 128 191 bs = Some t"
        and cs: "cs = (acc * 64 + (b - 128)) # t"
        using Cons.prems(1) inr by auto
      have "acc * 64 + (b - 128) \<noteq> 10"
        using Cons.prems(3) True by auto
      then have "10 \<in> set t"
        using Cons.prems(2) cs by simp
      then have "10 \<in> set bs"
        using Cons.IH [OF t] by simp
      then show ?thesis by simp
    next
      case k: False
      then have "utf8_run (k - 1) (acc * 64 + (b - 128)) 128 191 bs = Some cs"
        using Cons.prems(1) False inr by simp
      then have "10 \<in> set bs"
        using Cons.IH Cons.prems(2) pos by blast
      then show ?thesis by simp
    qed
  qed
qed

lemma run_snoc_newline:
  "utf8_run k acc lo hi (bs @ [10]) = Some cs \<Longrightarrow> k = 0 \<or> 128 \<le> lo \<Longrightarrow>
   \<exists>t. utf8_run k acc lo hi bs = Some t \<and> cs = t @ [10]"
proof (induction bs arbitrary: k acc lo hi cs)
  case Nil
  then show ?case by (auto split: if_splits)
next
  case (Cons b bs)
  show ?case
  proof (cases "k = 0")
    case True
    then show ?thesis
      using Cons.prems(1) Cons.IH
      by (fastforce split: if_splits)
  next
    case False
    then have inr: "lo \<le> b" "b \<le> hi"
      using Cons.prems(1) by (auto split: if_splits)
    show ?thesis
    proof (cases "k = 1")
      case True
      then obtain u where u: "utf8_run 0 0 128 191 (bs @ [10]) = Some u"
        and cs: "cs = (acc * 64 + (b - 128)) # u"
        using Cons.prems(1) inr by auto
      from Cons.IH [OF u] obtain t where "utf8_run 0 0 128 191 bs = Some t" "u = t @ [10]"
        by auto
      then show ?thesis
        using True inr cs by simp
    next
      case k: False
      then have "utf8_run (k - 1) (acc * 64 + (b - 128)) 128 191 (bs @ [10]) = Some cs"
        using Cons.prems(1) False inr by simp
      then obtain t where "utf8_run (k - 1) (acc * 64 + (b - 128)) 128 191 bs = Some t"
        "cs = t @ [10]"
        using Cons.IH by blast
      then show ?thesis
        using False k inr by simp
    qed
  qed
qed


lemma ascii_literals:
  "ascii '' '' = [32]" "ascii '','' = [44]" "ascii ''[Logs]'' = [91, 76, 111, 103, 115, 93]"
  "ascii ''[Logs] '' = [91, 76, 111, 103, 115, 93, 32]"
  by (simp_all add: ascii_def)

lemma written_line:
  "str_replace (str_replace (strftime now @ ascii '','' @ str_strip text) (ascii '' '') [])
     (ascii ''[Logs]'') []
   = filter (\<lambda>c. c \<noteq> 32) (strftime now) @ ascii '','' @ payload_of text"
proof -
  let ?F = "filter (\<lambda>c. c \<noteq> 32)"
  let ?old = "[91, 76, 111, 103, 115, 93] :: nat list"
  have no_bracket: "hd ?old \<notin> set (?F (strftime now) @ [44])"
    using set_strftime [of now] by auto
  have "replace_from ?old [] ((?F (strftime now) @ [44]) @ ?F (str_strip text))
        = (?F (strftime now) @ [44]) @ replace_from ?old [] (?F (str_strip text))"
    using no_bracket by (intro replace_skips_prefix) simp_all
  then show ?thesis
    by (simp add: payload_of_def str_replace_def ascii_literals replace_space)
qed

lemma payload_no_newline:
  assumes "utf8_decode (body @ [10]) = Some text" and "10 \<notin> set body"
  shows "10 \<notin> set (payload_of text)"
proof -
  from assms(1) obtain t where t: "utf8_decode body = Some t" and tx: "text = t @ [10]"
    using run_snoc_newline [of 0 0 128 191 body "text"] by (auto simp: utf8_decode_def)
  have "10 \<notin> set t"
    using run_newline [of 0 0 128 191 body t] t assms(2) by (auto simp: utf8_decode_def)
  moreover have "str_strip text = str_strip t"
    unfolding tx by (rule strip_snoc_whitespace) (simp add: is_whitespace_def)
  moreover have "set (payload_of text) \<subseteq> set (str_strip text)"
    using set_replace_from [of "[91, 76, 111, 103, 115, 93]" "filter (\<lambda>c. c \<noteq> 32) (str_strip text)"]
    by (auto simp: payload_of_def str_replace_def ascii_literals replace_space)
  ultimately show ?thesis
    using set_str_strip [of t] by auto
qed

section \<open>The scorer: results of an attempt\<close>

text \<open>
  Claim C1, as amended. With the model and the scaler loaded, four fields that parse as
  finite numbers, a scaler that returns four finite values for the reading (so that the
  reshape succeeds) and a model that returns a finite array of the shape of its input,
  the attempt shows a raw error \<open>raw_error \<ge> 0\<close>, and the percentage it formats into
  the score label is \<open>raw_error / DEFAULT_THRESHOLD * 100\<close>, with
  \<open>DEFAULT_THRESHOLD = 0.15\<close>.
\<close>

theorem finite_reading_score:
  assumes "model self = Some m" and "scaler self = Some sc"
    and "py_float (txt_temp self) = Some (Fin t)" and "py_float (txt_hum self) = Some (Fin h)"
    and "py_float (txt_press self) = Some (Fin p)" and "py_float (txt_soil self) = Some (Fin s)"
    and "input_batch_of sc [Fin t, Fin h, Fin p, Fin s] = Some batch"
    and "finite3 batch" and "finite3 (m batch)" and "shape3 (m batch) = shape3 batch"
  shows "\<exists>raw_error. 0 \<le> raw_error
           \<and> lbl_loss (fst (analyze_inputs self)) = RawErrorText (Fin raw_error)
           \<and> lbl_score (fst (analyze_inputs self))
               = (if DEFAULT_THRESHOLD < raw_error
                  then SeverityText (Fin (raw_error / DEFAULT_THRESHOLD * 100))
                  else DeviationText (Fin (raw_error / DEFAULT_THRESHOLD * 100)))"
proof -
  have "\<exists>a. np_reshape a 1 TIME_STEPS 4 = Some batch"
    using assms(7) by (auto simp: input_batch_of_def Let_def)
  then have "nonneg_fin (mae_loss_of m batch)"
    using assms(8-10) by (auto intro: mae_nonneg)
  then obtain e where e: "mae_loss_of m batch = Fin e" and nn: "0 \<le> e"
    by (cases "mae_loss_of m batch") auto
  have "analyze_inputs self =
           (show_result self (Fin e),
            [FloatCall (txt_temp self), FloatCall (txt_hum self),
             FloatCall (txt_press self), FloatCall (txt_soil self),
             TransformCall [ [Fin t, Fin h, Fin p, Fin s] ], PredictCall batch, UpdateCall])"
    using analyze_inputs_scored [OF assms(1-7)] e by simp
  then show ?thesis
    using nn by (auto simp: show_result_def fgreater_def Let_def)
qed

theorem finite_reading_score_witness:
  "py_float (ascii ''25.0'') = Some (Fin 25) \<and> py_float (ascii ''50.0'') = Some (Fin 50)
   \<and> py_float (ascii ''1013.0'') = Some (Fin 1013)
   \<and> py_float (ascii ''800.0'') = Some (Fin 800)
   \<and> finite3 [replicate TIME_STEPS [Fin 25, Fin 50, Fin 1013, Fin 800]]
   \<and> finite3 (map (map (map (\<lambda>v. fadd v (Fin (3 / 10)))))
                [replicate TIME_STEPS [Fin 25, Fin 50, Fin 1013, Fin 800]])
   \<and> lbl_loss (fst (analyze_inputs
         (AnomalyChecker (Stored (\<lambda>b. map (map (map (\<lambda>v. fadd v (Fin (3 / 10))))) b))
                         (Stored (\<lambda>x. x)))))
       = RawErrorText (Fin (3 / 10))
   \<and> lbl_score (fst (analyze_inputs
         (AnomalyChecker (Stored (\<lambda>b. map (map (map (\<lambda>v. fadd v (Fin (3 / 10))))) b))
                         (Stored (\<lambda>x. x)))))
       = SeverityText (Fin 200)"
proof -
  let ?m = "\<lambda>b. map (map (map (\<lambda>v. fadd v (Fin (3 / 10))))) b"
  let ?c = "AnomalyChecker (Stored ?m) (Stored (\<lambda>x. x))"
  let ?row = "[Fin 25, Fin 50, Fin 1013, Fin 800]"
  have m: "model ?c = Some ?m" and s: "scaler ?c = Some (\<lambda>x. x)"
    by (simp_all add: AnomalyChecker_def load_assets_def)
  have p1: "py_float (ascii ''25.0'') = Some (Fin 25)" by (simp add: float_eval)
  have p2: "py_float (ascii ''50.0'') = Some (Fin 50)" by (simp add: float_eval)
  have p3: "py_float (ascii ''1013.0'') = Some (Fin 1013)" by (simp add: float_eval)
  have p4: "py_float (ascii ''800.0'') = Some (Fin 800)" by (simp add: float_eval)
  have f1: "py_float (txt_temp ?c) = Some (Fin 25)"
    and f2: "py_float (txt_hum ?c) = Some (Fin 50)"
    and f3: "py_float (txt_press ?c) = Some (Fin 1013)"
    and f4: "py_float (txt_soil ?c) = Some (Fin 800)"
    using p1 p2 p3 p4 by (simp_all add: AnomalyChecker_def load_assets_def)
  have b: "input_batch_of (\<lambda>x. x) ?row = Some [replicate TIME_STEPS ?row]"
    by (rule input_batch_single_row) simp_all
  have fin: "finite3 [replicate TIME_STEPS ?row]"
    by (rule finite3_replicate) simp
  have finm: "finite3 (?m [replicate TIME_STEPS ?row])"
    by (simp add: finite3_def list_all_iff)
  have sh: "shape3 (?m [replicate TIME_STEPS ?row]) = shape3 [replicate TIME_STEPS ?row]"
    by (simp add: shape3_def)
  have e: "mae_loss_of ?m [replicate TIME_STEPS ?row] = Fin (3 / 10)"
    by (simp add: mae_loss_of_def np_mean_def np_abs_def np_sub_def fsub_def
          TIME_STEPS_def eval_nat_numeral)
  have shown: "lbl_loss (fst (analyze_inputs ?c)) = RawErrorText (Fin (3 / 10))"
    using analyze_inputs_scored [OF m s f1 f2 f3 f4 b] e
    by (simp add: show_result_def Let_def)
  from finite_reading_score [OF m s f1 f2 f3 f4 b fin finm sh]
  obtain r where "0 \<le> r" and "lbl_loss (fst (analyze_inputs ?c)) = RawErrorText (Fin r)"
    and sc: "lbl_score (fst (analyze_inputs ?c))
               = (if DEFAULT_THRESHOLD < r
                  then SeverityText (Fin (r / DEFAULT_THRESHOLD * 100))
                  else DeviationText (Fin (r / DEFAULT_THRESHOLD * 100)))"
    by blast
  then have "r = 3 / 10"
    using shown by simp
  then have "lbl_score (fst (analyze_inputs ?c)) = SeverityText (Fin 200)"
    using sc by (simp add: DEFAULT_THRESHOLD_def)
  then show ?thesis
    using p1 p2 p3 p4 fin finm shown by simp
qed

text \<open>
  Claim C1, as stated, fails. The four default fields parse as finite numbers and the
  assets are loaded, but with a model whose reconstruction has the shape of its input
  and holds NaN, the raw error shown is NaN, and \<open>NaN >= 0\<close> is false.
\<close>

theorem finite_reading_score_counterexample:
  "py_float (ascii ''25.0'') = Some (Fin 25) \<and> py_float (ascii ''50.0'') = Some (Fin 50)
   \<and> py_float (ascii ''1013.0'') = Some (Fin 1013)
   \<and> py_float (ascii ''800.0'') = Some (Fin 800)
   \<and> input_batch_of identity_scaler [Fin 25, Fin 50, Fin 1013, Fin 800]
       = Some [replicate TIME_STEPS [Fin 25, Fin 50, Fin 1013, Fin 800]]
   \<and> shape3 (nan_model [replicate TIME_STEPS [Fin 25, Fin 50, Fin 1013, Fin 800]])
       = shape3 [replicate TIME_STEPS [Fin 25, Fin 50, Fin 1013, Fin 800]]
   \<and> lbl_loss (fst (analyze_inputs (AnomalyChecker (Stored nan_model) (Stored identity_scaler))))
       = RawErrorText NaN
   \<and> \<not> fge NaN (Fin 0)"
proof -
  let ?c = "AnomalyChecker (Stored nan_model) (Stored identity_scaler)"
  let ?row = "[Fin 25, Fin 50, Fin 1013, Fin 800]"
  have m: "model ?c = Some nan_model" and s: "scaler ?c = Some identity_scaler"
    by (simp_all add: AnomalyChecker_def load_assets_def)
  have p1: "py_float (ascii ''25.0'') = Some (Fin 25)" by (simp add: float_eval)
  have p2: "py_float (ascii ''50.0'') = Some (Fin 50)" by (simp add: float_eval)
  have p3: "py_float (ascii ''1013.0'') = Some (Fin 1013)" by (simp add: float_eval)
  have p4: "py_float (ascii ''800.0'') = Some (Fin 800)" by (simp add: float_eval)
  have f1: "py_float (txt_temp ?c) = Some (Fin 25)"
    and f2: "py_float (txt_hum ?c) = Some (Fin 50)"
    and f3: "py_float (txt_press ?c) = Some (Fin 1013)"
    and f4: "py_float (txt_soil ?c) = Some (Fin 800)"
    using p1 p2 p3 p4 by (simp_all add: AnomalyChecker_def load_assets_def)
  have b: "input_batch_of identity_scaler ?row = Some [replicate TIME_STEPS ?row]"
    by (rule input_batch_single_row) (simp_all add: identity_scaler_def)
  have sh: "shape3 (nan_model [replicate TIME_STEPS ?row]) = shape3 [replicate TIME_STEPS ?row]"
    by (simp add: shape3_def nan_model_def)
  have e: "mae_loss_of nan_model [replicate TIME_STEPS ?row] = NaN"
    by (simp add: mae_loss_of_def np_mean_def np_abs_def np_sub_def fsub_def nan_model_def
          TIME_STEPS_def eval_nat_numeral)
  have "fst (analyze_inputs ?c) = show_result ?c NaN"
    using analyze_inputs_scored [OF m s f1 f2 f3 f4 b] e by simp
  then have l: "lbl_loss (fst (analyze_inputs ?c)) = RawErrorText NaN"
    by (simp add: show_result_def fgreater_def)
  have g: "\<not> fge NaN (Fin 0)"
    by (simp add: fge_def)
  show ?thesis
    using p1 p2 p3 p4 b sh l g by blast
qed

text \<open>
  Claim C2. When the four fields parse (to any floats), the reshape succeeds and the
  reconstruction has the shape of the input, the raw error shown is the mean absolute
  error \<open>mae_loss_of m batch\<close>, and the reading is classified \<open>ANOMALY DETECTED\<close>
  exactly when that error is greater than \<open>DEFAULT_THRESHOLD\<close> and \<open>STATUS NORMAL\<close>
  otherwise; an error equal to the threshold is classified normal.
\<close>

theorem classification_is_strict:
  assumes "model self = Some m" and "scaler self = Some sc"
    and "py_float (txt_temp self) = Some t" and "py_float (txt_hum self) = Some h"
    and "py_float (txt_press self) = Some p" and "py_float (txt_soil self) = Some s"
    and "input_batch_of sc [t, h, p, s] = Some batch"
    and "shape3 (m batch) = shape3 batch"
  shows "lbl_loss (fst (analyze_inputs self)) = RawErrorText (mae_loss_of m batch)
         \<and> (lbl_result (fst (analyze_inputs self)) = Plain ''ANOMALY DETECTED''
              \<longleftrightarrow> fgreater (mae_loss_of m batch) (Fin DEFAULT_THRESHOLD))
         \<and> (lbl_result (fst (analyze_inputs self)) = Plain ''STATUS NORMAL''
              \<longleftrightarrow> \<not> fgreater (mae_loss_of m batch) (Fin DEFAULT_THRESHOLD))
         \<and> (\<forall>raw_error. mae_loss_of m batch = Fin raw_error \<longrightarrow>
               (lbl_result (fst (analyze_inputs self)) = Plain ''ANOMALY DETECTED''
                \<longleftrightarrow> DEFAULT_THRESHOLD < raw_error))
         \<and> (mae_loss_of m batch = Fin DEFAULT_THRESHOLD \<longrightarrow>
               lbl_result (fst (analyze_inputs self)) = Plain ''STATUS NORMAL'')"
  using analyze_inputs_scored [OF assms(1-7)]
  by (auto simp: show_result_def fgreater_def Let_def)

theorem classification_is_strict_witness:
  "py_float (ascii ''25.0'') = Some (Fin 25) \<and> py_float (ascii ''50.0'') = Some (Fin 50)
   \<and> py_float (ascii ''1013.0'') = Some (Fin 1013) \<and> py_float (ascii ''800.0'') = Some (Fin 800)
   \<and> mae_loss_of (\<lambda>b. map (map (map (\<lambda>v. fadd v (Fin (15 / 100))))) b)
         [replicate TIME_STEPS [Fin 25, Fin 50, Fin 1013, Fin 800]] = Fin DEFAULT_THRESHOLD
   \<and> lbl_result (fst (analyze_inputs
         (AnomalyChecker (Stored (\<lambda>b. map (map (map (\<lambda>v. fadd v (Fin (15 / 100))))) b))
                         (Stored (\<lambda>x. x)))))
       = Plain ''STATUS NORMAL''"
proof -
  let ?m = "\<lambda>b. map (map (map (\<lambda>v. fadd v (Fin (15 / 100))))) b"
  let ?c = "AnomalyChecker (Stored ?m) (Stored (\<lambda>x. x))"
  let ?row = "[Fin 25, Fin 50, Fin 1013, Fin 800]"
  have m: "model ?c = Some ?m" and s: "scaler ?c = Some (\<lambda>x. x)"
    by (simp_all add: AnomalyChecker_def load_assets_def)
  have p1: "py_float (ascii ''25.0'') = Some (Fin 25)" by (simp add: float_eval)
  have p2: "py_float (ascii ''50.0'') = Some (Fin 50)" by (simp add: float_eval)
  have p3: "py_float (ascii ''1013.0'') = Some (Fin 1013)" by (simp add: float_eval)
  have p4: "py_float (ascii ''800.0'') = Some (Fin 800)" by (simp add: float_eval)
  have f1: "py_float (txt_temp ?c) = Some (Fin 25)"
    and f2: "py_float (txt_hum ?c) = Some (Fin 50)"
    and f3: "py_float (txt_press ?c) = Some (Fin 1013)"
    and f4: "py_float (txt_soil ?c) = Some (Fin 800)"
    using p1 p2 p3 p4 by (simp_all add: AnomalyChecker_def load_assets_def)
  have b: "input_batch_of (\<lambda>x. x) ?row = Some [replicate TIME_STEPS ?row]"
    by (rule input_batch_single_row) simp_all
  have sh: "shape3 (?m [replicate TIME_STEPS ?row]) = shape3 [replicate TIME_STEPS ?row]"
    by (simp add: shape3_def)
  have e: "mae_loss_of ?m [replicate TIME_STEPS ?row] = Fin DEFAULT_THRESHOLD"
    by (simp add: mae_loss_of_def np_mean_def np_abs_def np_sub_def fsub_def
          TIME_STEPS_def DEFAULT_THRESHOLD_def eval_nat_numeral)
  show ?thesis
    using p1 p2 p3 p4 e classification_is_strict [OF m s f1 f2 f3 f4 b sh]
    by blast
qed

text \<open>
  Claim C3. When the four fields parse, the scaler returns one normalized row of four
  values for the single reading, and the reconstruction has the shape of the input,
  then the scaler is called once on the one reading, the model is called on the
  \<open>(1, TIME_STEPS, 4)\<close> sequence that repeats the normalized row at every one of the
  \<open>TIME_STEPS = 30\<close> positions, and the raw error shown is the mean of the absolute
  elementwise differences over all time steps and all four features, as the
  specification words it.
\<close>

theorem scoring_matches_specification:
  assumes "model self = Some m" and "scaler self = Some sc"
    and "py_float (txt_temp self) = Some t" and "py_float (txt_hum self) = Some h"
    and "py_float (txt_press self) = Some p" and "py_float (txt_soil self) = Some s"
    and "sc [ [t, h, p, s] ] = [normalized]" and "length normalized = 4"
    and "shape3 (m (spec_repeated_sequence normalized))
         = shape3 (spec_repeated_sequence normalized)"
  shows "snd (analyze_inputs self) =
           [FloatCall (txt_temp self), FloatCall (txt_hum self),
            FloatCall (txt_press self), FloatCall (txt_soil self),
            TransformCall [ [t, h, p, s] ],
            PredictCall (spec_repeated_sequence normalized), UpdateCall]
         \<and> lbl_loss (fst (analyze_inputs self))
             = RawErrorText (spec_raw_error (m (spec_repeated_sequence normalized))
                                            (spec_repeated_sequence normalized))"
proof -
  let ?batch = "spec_repeated_sequence normalized"
  have b: "input_batch_of sc [t, h, p, s] = Some ?batch"
    unfolding spec_repeated_sequence_def
    using assms(7,8) by (rule input_batch_single_row)
  have "\<exists>a. np_reshape a 1 TIME_STEPS 4 = Some ?batch"
    using b by (auto simp: input_batch_of_def Let_def)
  then have sh: "shape3 ?batch = [replicate TIME_STEPS 4]"
    by (auto intro: reshape_shape)
  have "mae_loss_of m ?batch = spec_raw_error (m ?batch) ?batch"
    using sh assms(9) by (rule mae_loss_is_spec_raw_error)
  then show ?thesis
    using analyze_inputs_scored [OF assms(1-6) b]
    by (simp add: show_result_def Let_def)
qed

theorem scoring_matches_specification_witness:
  "py_float (ascii ''25.0'') = Some (Fin 25) \<and> py_float (ascii ''50.0'') = Some (Fin 50)
   \<and> py_float (ascii ''1013.0'') = Some (Fin 1013) \<and> py_float (ascii ''800.0'') = Some (Fin 800)
   \<and> length [Fin 25, Fin 50, Fin 1013, Fin 800] = 4
   \<and> lbl_loss (fst (analyze_inputs (AnomalyChecker (Stored (\<lambda>x. x)) (Stored (\<lambda>x. x)))))
       = RawErrorText (spec_raw_error
           (spec_repeated_sequence [Fin 25, Fin 50, Fin 1013, Fin 800])
           (spec_repeated_sequence [Fin 25, Fin 50, Fin 1013, Fin 800]))"
proof -
  let ?c = "AnomalyChecker (Stored (\<lambda>x. x)) (Stored (\<lambda>x. x))"
  let ?row = "[Fin 25, Fin 50, Fin 1013, Fin 800]"
  have m: "model ?c = Some (\<lambda>x. x)" and s: "scaler ?c = Some (\<lambda>x. x)"
    by (simp_all add: AnomalyChecker_def load_assets_def)
  have p1: "py_float (ascii ''25.0'') = Some (Fin 25)" by (simp add: float_eval)
  have p2: "py_float (ascii ''50.0'') = Some (Fin 50)" by (simp add: float_eval)
  have p3: "py_float (ascii ''1013.0'') = Some (Fin 1013)" by (simp add: float_eval)
  have p4: "py_float (ascii ''800.0'') = Some (Fin 800)" by (simp add: float_eval)
  have f1: "py_float (txt_temp ?c) = Some (Fin 25)"
    and f2: "py_float (txt_hum ?c) = Some (Fin 50)"
    and f3: "py_float (txt_press ?c) = Some (Fin 1013)"
    and f4: "py_float (txt_soil ?c) = Some (Fin 800)"
    using p1 p2 p3 p4 by (simp_all add: AnomalyChecker_def load_assets_def)
  have n: "(\<lambda>x. x) [?row] = [?row]" by simp
  have l: "length ?row = 4" by simp
  show ?thesis
    using p1 p2 p3 p4 l scoring_matches_specification [OF m s f1 f2 f3 f4 n l refl]
    by blast
qed

section \<open>The scorer: errors\<close>

text \<open>
  Claim C4. When one of the four text fields does not parse as a number, the attempt
  calls neither \<open>model.predict\<close> nor \<open>scaler.transform\<close>; and with the model and the
  scaler loaded it ends in the handler of \<open>ValueError\<close>, which shows the message
  \<open>Invalid Input: Please enter numbers only.\<close> (the call returns a state: nothing
  propagates to the caller).
\<close>

theorem invalid_input_no_model_call:
  assumes "py_float (txt_temp self) = None \<or> py_float (txt_hum self) = None
           \<or> py_float (txt_press self) = None \<or> py_float (txt_soil self) = None"
  shows "(\<forall>b. PredictCall b \<notin> set (snd (analyze_inputs self)))
         \<and> (\<forall>a. TransformCall a \<notin> set (snd (analyze_inputs self)))
         \<and> (model self \<noteq> None \<and> scaler self \<noteq> None \<longrightarrow>
              fst (analyze_inputs self) = show_invalid self
              \<and> lbl_result (fst (analyze_inputs self))
                  = Plain ''Invalid Input: Please enter numbers only.'')"
  using assms
  by (auto simp: analyze_inputs_def show_invalid_def split: option.splits)

theorem invalid_input_no_model_call_witness:
  "py_float (28 # ascii ''25.0'') = None
   \<and> (\<forall>b. PredictCall b \<notin> set (snd (analyze_inputs
          ((AnomalyChecker (Stored (\<lambda>x. x)) (Stored (\<lambda>x. x)))\<lparr>txt_temp := 28 # ascii ''25.0''\<rparr>))))
   \<and> lbl_result (fst (analyze_inputs
          ((AnomalyChecker (Stored (\<lambda>x. x)) (Stored (\<lambda>x. x)))\<lparr>txt_temp := 28 # ascii ''25.0''\<rparr>)))
       = Plain ''Invalid Input: Please enter numbers only.''"
proof -
  let ?c = "(AnomalyChecker (Stored (\<lambda>x. x)) (Stored (\<lambda>x. x)))\<lparr>txt_temp := 28 # ascii ''25.0''\<rparr>"
  have p: "py_float (28 # ascii ''25.0'') = None"
    by (simp add: float_eval)
  have h: "py_float (txt_temp ?c) = None \<or> py_float (txt_hum ?c) = None
           \<or> py_float (txt_press ?c) = None \<or> py_float (txt_soil ?c) = None"
    by (simp add: p)
  have m: "model ?c \<noteq> None \<and> scaler ?c \<noteq> None"
    by (simp add: AnomalyChecker_def load_assets_def)
  show ?thesis
    using p m invalid_input_no_model_call [OF h] by blast
qed

text \<open>
  Claim C5. When the model file or the scaler file is missing or fails to load, the
  checker holds \<open>None\<close> for the model or for the scaler; and in every state in which
  one of the two is \<open>None\<close>, an attempt only shows \<open>Model not loaded!\<close> and calls
  \<open>update\<close>: no field is parsed, the scaler and the model are not called, and the
  assets stay as they were, so every later attempt does the same.
\<close>

theorem assets_missing_before_numeric_work:
  "((\<not> loadable model_file \<or> \<not> loadable scaler_file) \<longrightarrow>
      (model (AnomalyChecker model_file scaler_file) = None
       \<or> scaler (AnomalyChecker model_file scaler_file) = None))
   \<and> ((model self = None \<or> scaler self = None) \<longrightarrow>
      analyze_inputs self = (show_not_loaded self, [UpdateCall])
      \<and> lbl_result (fst (analyze_inputs self)) = Plain ''Model not loaded!''
      \<and> model (fst (analyze_inputs self)) = model self
      \<and> scaler (fst (analyze_inputs self)) = scaler self)"
proof -
  have load: "(\<not> loadable model_file \<or> \<not> loadable scaler_file) \<longrightarrow>
      (model (AnomalyChecker model_file scaler_file) = None
       \<or> scaler (AnomalyChecker model_file scaler_file) = None)"
    by (cases model_file; cases scaler_file)
       (simp_all add: AnomalyChecker_def load_assets_def)
  have run: "(model self = None \<or> scaler self = None) \<longrightarrow>
      analyze_inputs self = (show_not_loaded self, [UpdateCall])"
    by (auto simp: analyze_inputs_def split: option.splits)
  show ?thesis using load run by (auto simp: show_not_loaded_def)
qed

theorem assets_missing_before_numeric_work_witness:
  "\<not> loadable (Missing :: (tensor \<Rightarrow> tensor) artifact)
   \<and> scaler (AnomalyChecker Missing (Stored (\<lambda>x. x))) = None
   \<and> analyze_inputs (AnomalyChecker Missing (Stored (\<lambda>x. x)))
       = (show_not_loaded (AnomalyChecker Missing (Stored (\<lambda>x. x))), [UpdateCall])"
  using assets_missing_before_numeric_work
    [of Missing "Stored (\<lambda>x. x)" "AnomalyChecker Missing (Stored (\<lambda>x. x))"]
  by (simp add: AnomalyChecker_def load_assets_def)

section \<open>Scaling and repeating\<close>

text \<open>
  Claim C6. For a scaler that is an affine transform of each row, normalizing the
  reading repeated at \<open>TIME_STEPS\<close> positions is repeating the normalized reading; so
  the batch the code builds (repeat after normalize) is the reshape of the normalized
  repetition.
\<close>

theorem affine_scaling_commutes_with_repeat:
  "affine_scaler scale offset (np_repeat [x] TIME_STEPS)
     = np_repeat (affine_scaler scale offset [x]) TIME_STEPS
   \<and> input_batch_of (affine_scaler scale offset) x
     = np_reshape (affine_scaler scale offset (np_repeat [x] TIME_STEPS)) 1 TIME_STEPS 4"
proof -
  have "affine_scaler scale offset (np_repeat [x] TIME_STEPS)
     = np_repeat (affine_scaler scale offset [x]) TIME_STEPS"
    by (simp add: affine_scaler_def np_repeat_def)
  then show ?thesis
    by (simp add: input_batch_of_def)
qed

section \<open>Purity of the scoring\<close>

text \<open>
  Claim C7. A call of \<open>analyze_inputs\<close> leaves the model and the scaler as they were;
  calling it again on the state it produced gives the same state and the same calls;
  and two states that agree on the model, the scaler and the four text fields, whatever
  their widgets showed before, make the same calls and get the same classification
  and, when the reading is scored, the same raw error, score and progress value.
\<close>

theorem scoring_is_pure:
  assumes "model other = model self" and "scaler other = scaler self"
    and "txt_temp other = txt_temp self" and "txt_hum other = txt_hum self"
    and "txt_press other = txt_press self" and "txt_soil other = txt_soil self"
  shows "model (fst (analyze_inputs self)) = model self
         \<and> scaler (fst (analyze_inputs self)) = scaler self
         \<and> analyze_inputs (fst (analyze_inputs self)) = analyze_inputs self
         \<and> snd (analyze_inputs other) = snd (analyze_inputs self)
         \<and> lbl_result (fst (analyze_inputs other)) = lbl_result (fst (analyze_inputs self))
         \<and> (lbl_result (fst (analyze_inputs self)) = Plain ''ANOMALY DETECTED''
              \<or> lbl_result (fst (analyze_inputs self)) = Plain ''STATUS NORMAL'' \<longrightarrow>
              lbl_loss (fst (analyze_inputs other)) = lbl_loss (fst (analyze_inputs self))
              \<and> lbl_score (fst (analyze_inputs other)) = lbl_score (fst (analyze_inputs self))
              \<and> progress_value (fst (analyze_inputs other))
                  = progress_value (fst (analyze_inputs self)))"
proof -
  have keep: "model (fst (analyze_inputs self)) = model self
         \<and> scaler (fst (analyze_inputs self)) = scaler self"
    by (simp add: analyze_inputs_def run_scoring_def show_result_def show_invalid_def
          show_not_loaded_def Let_def split: option.splits)
  have twice: "analyze_inputs (fst (analyze_inputs self)) = analyze_inputs self"
    by (simp add: analyze_inputs_def run_scoring_def show_result_def show_invalid_def
          show_not_loaded_def Let_def split: option.splits)
  have calls: "snd (analyze_inputs other) = snd (analyze_inputs self)"
    using assms
    by (simp add: analyze_inputs_def run_scoring_def split: option.splits)
  have res: "lbl_result (fst (analyze_inputs other)) = lbl_result (fst (analyze_inputs self))"
    using assms
    by (simp add: analyze_inputs_def run_scoring_def show_result_def show_invalid_def
          show_not_loaded_def Let_def split: option.splits)
  have shown: "lbl_result (fst (analyze_inputs self)) = Plain ''ANOMALY DETECTED''
              \<or> lbl_result (fst (analyze_inputs self)) = Plain ''STATUS NORMAL'' \<longrightarrow>
              lbl_loss (fst (analyze_inputs other)) = lbl_loss (fst (analyze_inputs self))
              \<and> lbl_score (fst (analyze_inputs other)) = lbl_score (fst (analyze_inputs self))
              \<and> progress_value (fst (analyze_inputs other))
                  = progress_value (fst (analyze_inputs self))"
    using assms
    by (simp add: analyze_inputs_def run_scoring_def show_result_def show_invalid_def
          show_not_loaded_def Let_def split: option.splits)
  show ?thesis using keep twice calls res shown by blast
qed

theorem scoring_is_pure_witness:
  "model ((AnomalyChecker (Stored (\<lambda>x. x)) (Stored (\<lambda>x. x)))
            \<lparr>lbl_loss := Plain ''old'', progress_value := Fin 1\<rparr>)
     = model (AnomalyChecker (Stored (\<lambda>x. x)) (Stored (\<lambda>x. x)))
   \<and> txt_temp ((AnomalyChecker (Stored (\<lambda>x. x)) (Stored (\<lambda>x. x)))
            \<lparr>lbl_loss := Plain ''old'', progress_value := Fin 1\<rparr>)
     = txt_temp (AnomalyChecker (Stored (\<lambda>x. x)) (Stored (\<lambda>x. x)))
   \<and> snd (analyze_inputs ((AnomalyChecker (Stored (\<lambda>x. x)) (Stored (\<lambda>x. x)))
            \<lparr>lbl_loss := Plain ''old'', progress_value := Fin 1\<rparr>))
     = snd (analyze_inputs (AnomalyChecker (Stored (\<lambda>x. x)) (Stored (\<lambda>x. x))))
   \<and> lbl_result (fst (analyze_inputs ((AnomalyChecker (Stored (\<lambda>x. x)) (Stored (\<lambda>x. x)))
            \<lparr>lbl_loss := Plain ''old'', progress_value := Fin 1\<rparr>)))
     = lbl_result (fst (analyze_inputs (AnomalyChecker (Stored (\<lambda>x. x)) (Stored (\<lambda>x. x)))))"
proof -
  let ?self = "AnomalyChecker (Stored (\<lambda>x. x)) (Stored (\<lambda>x. x))"
  let ?other = "?self\<lparr>lbl_loss := Plain ''old'', progress_value := Fin 1\<rparr>"
  have a: "model ?other = model ?self" and b: "scaler ?other = scaler ?self"
    and c: "txt_temp ?other = txt_temp ?self" and d: "txt_hum ?other = txt_hum ?self"
    and e: "txt_press ?other = txt_press ?self" and f: "txt_soil ?other = txt_soil ?self"
    by simp_all
  show ?thesis
    using a c scoring_is_pure [OF a b c d e f] by blast
qed

section \<open>The collector\<close>

text \<open>
  Claim C8, as amended. For a line read from the serial port: when it does not begin
  with the marker \<open>[Logs] \<close> the state is unchanged; when it begins with the marker
  but is not valid UTF-8 the process ends with \<open>UnicodeDecodeError\<close> and nothing is
  appended; when it begins with the marker and decodes, exactly one record is appended
  to the log file. The record is a stamp, a comma, the payload and a newline, where the
  stamp reads as the generated timestamp when spaces are ignored and the payload is
  the stripped text of the line with every space and every \<open>[Logs]\<close> deleted; when
  the line ends with its only newline, the record is one line.
\<close>

theorem collector_appends_record:
  "(\<not> startswith data (ascii ''[Logs] '') \<longrightarrow> collector_step now data st = Inr st)
   \<and> (startswith data (ascii ''[Logs] '') \<and> utf8_decode data = None \<longrightarrow>
        collector_step now data st = Inl UnicodeDecodeError)
   \<and> (startswith data (ascii ''[Logs] '') \<and> utf8_decode data = Some text \<longrightarrow>
        (\<exists>stamp st'.
           collector_step now data st = Inr st'
           \<and> log_file st' = log_file st @ stamp @ ascii '','' @ payload_of text @ [10]
           \<and> filter (\<lambda>c. c \<noteq> 32) stamp = filter (\<lambda>c. c \<noteq> 32) (strftime now)
           \<and> 32 \<notin> set (payload_of text)
           \<and> ((\<exists>body. data = body @ [10] \<and> 10 \<notin> set body) \<longrightarrow>
                10 \<notin> set (stamp @ ascii '','' @ payload_of text))))"
proof -
  let ?F = "filter (\<lambda>c. c \<noteq> 32)"
  have skip: "\<not> startswith data (ascii ''[Logs] '') \<longrightarrow> collector_step now data st = Inr st"
    by (simp add: collector_step_def startswith_def)
  have crash: "startswith data (ascii ''[Logs] '') \<and> utf8_decode data = None \<longrightarrow>
        collector_step now data st = Inl UnicodeDecodeError"
    by (simp add: collector_step_def startswith_def)
  have rec: "\<exists>stamp st'.
           collector_step now data st = Inr st'
           \<and> log_file st' = log_file st @ stamp @ ascii '','' @ payload_of text @ [10]
           \<and> ?F stamp = ?F (strftime now)
           \<and> 32 \<notin> set (payload_of text)
           \<and> ((\<exists>body. data = body @ [10] \<and> 10 \<notin> set body) \<longrightarrow>
                10 \<notin> set (stamp @ ascii '','' @ payload_of text))"
    if b: "startswith data (ascii ''[Logs] '')" and d: "utf8_decode data = Some text"
  proof -
    let ?line = "?F (strftime now) @ ascii '','' @ payload_of text"
    let ?st' = "st\<lparr> log_file := log_file st @ ?line @ [10],
                     printed := printed st @ [str_split 44 ?line] \<rparr>"
    have step: "collector_step now data st = Inr ?st'"
      using b d written_line [of now "text"]
      by (simp add: collector_step_def startswith_def Let_def)
    have nospace: "32 \<notin> set (payload_of text)"
      using set_replace_from [of "[91, 76, 111, 103, 115, 93]" "?F (str_strip text)"]
      by (auto simp: payload_of_def str_replace_def ascii_literals replace_space)
    have oneline: "10 \<notin> set (?line)"
      if "\<exists>body. data = body @ [10] \<and> 10 \<notin> set body"
    proof -
      from that obtain body where "data = body @ [10]" "10 \<notin> set body" by blast
      then have "10 \<notin> set (payload_of text)"
        using d payload_no_newline by blast
      moreover have "10 \<notin> set (?F (strftime now))"
        using set_strftime [of now] by auto
      ultimately show ?thesis
        by (simp add: ascii_literals)
    qed
    show ?thesis
      using step nospace oneline
      by (intro exI [of _ "?F (strftime now)"] exI [of _ ?st']) simp
  qed
  show ?thesis
    using skip crash rec by blast
qed

theorem collector_appends_record_witness:
  "startswith (ascii ''[Logs] 23.5, 61'' @ [13, 10]) (ascii ''[Logs] '')
   \<and> utf8_decode (ascii ''[Logs] 23.5, 61'' @ [13, 10])
       = Some (ascii ''[Logs] 23.5, 61'' @ [13, 10])
   \<and> (\<exists>body. ascii ''[Logs] 23.5, 61'' @ [13, 10] = body @ [10] \<and> 10 \<notin> set body)
   \<and> (\<exists>stamp st'.
         collector_step \<lparr>year = 2024, month = 1, day = 1, hour = 12, minute = 0, second = 0\<rparr>
           (ascii ''[Logs] 23.5, 61'' @ [13, 10]) \<lparr>log_file = [], printed = []\<rparr> = Inr st'
         \<and> log_file st'
             = stamp @ ascii '','' @ payload_of (ascii ''[Logs] 23.5, 61'' @ [13, 10]) @ [10]
         \<and> 10 \<notin> set (stamp @ ascii '','' @ payload_of (ascii ''[Logs] 23.5, 61'' @ [13, 10])))"
proof -
  let ?d = "ascii ''[Logs] 23.5, 61'' @ [13, 10]"
  let ?now = "\<lparr>year = 2024, month = 1, day = 1, hour = 12, minute = 0, second = 0\<rparr>"
  let ?st = "\<lparr>log_file = [], printed = []\<rparr>"
  have b: "startswith ?d (ascii ''[Logs] '')"
    by code_simp
  have d: "utf8_decode ?d = Some ?d"
    by code_simp
  have "?d = (ascii ''[Logs] 23.5, 61'' @ [13]) @ [10]
        \<and> 10 \<notin> set (ascii ''[Logs] 23.5, 61'' @ [13])"
    by code_simp
  then have l: "\<exists>body. ?d = body @ [10] \<and> 10 \<notin> set body"
    by (rule exI)
  have "\<exists>stamp st'.
         collector_step ?now ?d ?st = Inr st'
         \<and> log_file st' = stamp @ ascii '','' @ payload_of ?d @ [10]
         \<and> 10 \<notin> set (stamp @ ascii '','' @ payload_of ?d)"
    using b d l collector_appends_record [of ?d ?now ?st ?d]
    by (simp del: set_append) blast
  then show ?thesis
    using b d l by blast
qed

text \<open>
  Claim C8, as stated, fails. At 2024-01-01 12:00:00 the line \<open>[Logs] 1,2\<close> is
  recorded as \<open>2024-01-0112:00:00,1,2\<close>: the replacement of spaces runs over the
  timestamp too, so the record is not the generated timestamp, a comma and the payload.
  And the line \<open>[Logs] \<close> followed by the byte \<open>0xFF\<close> begins with the marker, yet no
  record is appended: the decoding raises.
\<close>

theorem collector_record_counterexample:
  "strftime \<lparr>year = 2024, month = 1, day = 1, hour = 12, minute = 0, second = 0\<rparr>
     = ascii ''2024-01-01 12:00:00''
   \<and> collector_step \<lparr>year = 2024, month = 1, day = 1, hour = 12, minute = 0, second = 0\<rparr>
        (ascii ''[Logs] 1,2'' @ [10]) \<lparr>log_file = [], printed = []\<rparr>
     = Inr \<lparr>log_file = ascii ''2024-01-0112:00:00,1,2'' @ [10],
            printed = [ [ascii ''2024-01-0112:00:00'', ascii ''1'', ascii ''2''] ]\<rparr>
   \<and> ascii ''2024-01-0112:00:00,1,2'' @ [10]
       \<noteq> ascii ''2024-01-01 12:00:00'' @ ascii '','' @ ascii ''1,2'' @ [10]
   \<and> startswith (ascii ''[Logs] '' @ [255, 10]) (ascii ''[Logs] '')
   \<and> collector_step \<lparr>year = 2024, month = 1, day = 1, hour = 12, minute = 0, second = 0\<rparr>
        (ascii ''[Logs] '' @ [255, 10]) \<lparr>log_file = [], printed = []\<rparr>
     = Inl UnicodeDecodeError"
  by code_simp

section \<open>The display\<close>

text \<open>
  Claim C9. The field \<open>nan\<close> parses, the attempt runs to the end, and with a scaler and
  a model that hand a NaN on (here the identities) the raw error is NaN: the
  comparison with the threshold is false, the reading is shown as \<open>STATUS NORMAL\<close> and
  the progress bar is given NaN, which does not lie in \<open>[0, 1]\<close>.
\<close>

theorem nan_reading_progress_not_in_unit_interval:
  "py_float (ascii ''nan'') = Some NaN
   \<and> lbl_result (fst (analyze_inputs
        ((AnomalyChecker (Stored (\<lambda>x. x)) (Stored (\<lambda>x. x)))\<lparr>txt_temp := ascii ''nan''\<rparr>)))
       = Plain ''STATUS NORMAL''
   \<and> progress_value (fst (analyze_inputs
        ((AnomalyChecker (Stored (\<lambda>x. x)) (Stored (\<lambda>x. x)))\<lparr>txt_temp := ascii ''nan''\<rparr>)))
       = NaN
   \<and> \<not> in_unit_interval (progress_value (fst (analyze_inputs
        ((AnomalyChecker (Stored (\<lambda>x. x)) (Stored (\<lambda>x. x)))\<lparr>txt_temp := ascii ''nan''\<rparr>))))"
proof -
  let ?c = "(AnomalyChecker (Stored (\<lambda>x. x)) (Stored (\<lambda>x. x)))\<lparr>txt_temp := ascii ''nan''\<rparr>"
  let ?row = "[NaN, Fin 50, Fin 1013, Fin 800]"
  have m: "model ?c = Some (\<lambda>x. x)" and s: "scaler ?c = Some (\<lambda>x. x)"
    by (simp_all add: AnomalyChecker_def load_assets_def)
  have p1: "py_float (ascii ''nan'') = Some NaN" by (simp add: float_eval)
  have p2: "py_float (ascii ''50.0'') = Some (Fin 50)" by (simp add: float_eval)
  have p3: "py_float (ascii ''1013.0'') = Some (Fin 1013)" by (simp add: float_eval)
  have p4: "py_float (ascii ''800.0'') = Some (Fin 800)" by (simp add: float_eval)
  have f1: "py_float (txt_temp ?c) = Some NaN"
    and f2: "py_float (txt_hum ?c) = Some (Fin 50)"
    and f3: "py_float (txt_press ?c) = Some (Fin 1013)"
    and f4: "py_float (txt_soil ?c) = Some (Fin 800)"
    using p1 p2 p3 p4 by (simp_all add: AnomalyChecker_def load_assets_def)
  have b: "input_batch_of (\<lambda>x. x) ?row = Some [replicate TIME_STEPS ?row]"
    by (rule input_batch_single_row) simp_all
  have e: "mae_loss_of (\<lambda>x. x) [replicate TIME_STEPS ?row] = NaN"
    by (simp add: mae_loss_of_def np_mean_def np_abs_def np_sub_def fsub_def
          TIME_STEPS_def eval_nat_numeral)
  have "fst (analyze_inputs ?c) = show_result ?c NaN"
    using analyze_inputs_scored [OF m s f1 f2 f3 f4 b] e by simp
  then show ?thesis
    using p1 by (simp add: show_result_def fgreater_def)
qed

text \<open>
  Claim C10. When an attempt with loaded assets fails on a non-numeric field, the new
  state is the old one with the status label (text and colour) overwritten and the
  result card made visible: the raw-error label, the score label and the progress
  bar (value and colour) are exactly as before.
\<close>

theorem invalid_input_keeps_previous_result:
  assumes "model self \<noteq> None" and "scaler self \<noteq> None"
    and "py_float (txt_temp self) = None \<or> py_float (txt_hum self) = None
         \<or> py_float (txt_press self) = None \<or> py_float (txt_soil self) = None"
  shows "fst (analyze_inputs self)
           = self\<lparr> lbl_result := Plain ''Invalid Input: Please enter numbers only.'',
                   lbl_result_color := Some RED,
                   result_card_visible := True \<rparr>
         \<and> lbl_loss (fst (analyze_inputs self)) = lbl_loss self
         \<and> lbl_score (fst (analyze_inputs self)) = lbl_score self
         \<and> progress_value (fst (analyze_inputs self)) = progress_value self
         \<and> progress_color (fst (analyze_inputs self)) = progress_color self"
  using assms
  by (auto simp: analyze_inputs_def show_invalid_def split: option.splits)

theorem invalid_input_keeps_previous_result_witness:
  "py_float (ascii ''25.0'' @ [31]) = None
   \<and> lbl_loss (fst (analyze_inputs (AnomalyChecker (Stored (\<lambda>x. x)) (Stored (\<lambda>x. x)))))
       = RawErrorText (Fin 0)
   \<and> lbl_result (fst (analyze_inputs
         ((fst (analyze_inputs (AnomalyChecker (Stored (\<lambda>x. x)) (Stored (\<lambda>x. x)))))
            \<lparr>txt_hum := ascii ''25.0'' @ [31]\<rparr>)))
       = Plain ''Invalid Input: Please enter numbers only.''
   \<and> lbl_loss (fst (analyze_inputs
         ((fst (analyze_inputs (AnomalyChecker (Stored (\<lambda>x. x)) (Stored (\<lambda>x. x)))))
            \<lparr>txt_hum := ascii ''25.0'' @ [31]\<rparr>)))
       = RawErrorText (Fin 0)
   \<and> lbl_score (fst (analyze_inputs
         ((fst (analyze_inputs (AnomalyChecker (Stored (\<lambda>x. x)) (Stored (\<lambda>x. x)))))
            \<lparr>txt_hum := ascii ''25.0'' @ [31]\<rparr>)))
       = DeviationText (Fin 0)
   \<and> progress_color (fst (analyze_inputs
         ((fst (analyze_inputs (AnomalyChecker (Stored (\<lambda>x. x)) (Stored (\<lambda>x. x)))))
            \<lparr>txt_hum := ascii ''25.0'' @ [31]\<rparr>)))
       = GREEN"
proof -
  let ?c0 = "AnomalyChecker (Stored (\<lambda>x. x)) (Stored (\<lambda>x. x))"
  let ?row = "[Fin 25, Fin 50, Fin 1013, Fin 800]"
  have m0: "model ?c0 = Some (\<lambda>x. x)" and s0: "scaler ?c0 = Some (\<lambda>x. x)"
    by (simp_all add: AnomalyChecker_def load_assets_def)
  have f1: "py_float (txt_temp ?c0) = Some (Fin 25)"
    and f2: "py_float (txt_hum ?c0) = Some (Fin 50)"
    and f3: "py_float (txt_press ?c0) = Some (Fin 1013)"
    and f4: "py_float (txt_soil ?c0) = Some (Fin 800)"
    by (simp_all add: AnomalyChecker_def load_assets_def float_eval)
  have b: "input_batch_of (\<lambda>x. x) ?row = Some [replicate TIME_STEPS ?row]"
    by (rule input_batch_single_row) simp_all
  have e: "mae_loss_of (\<lambda>x. x) [replicate TIME_STEPS ?row] = Fin 0"
    by (simp add: mae_loss_of_def np_mean_def np_abs_def np_sub_def fsub_def
          TIME_STEPS_def eval_nat_numeral)
  have c1: "fst (analyze_inputs ?c0) = show_result ?c0 (Fin 0)"
    using analyze_inputs_scored [OF m0 s0 f1 f2 f3 f4 b] e by simp
  let ?c2 = "(fst (analyze_inputs ?c0))\<lparr>txt_hum := ascii ''25.0'' @ [31]\<rparr>"
  have shown: "lbl_loss (fst (analyze_inputs ?c0)) = RawErrorText (Fin 0)"
    "lbl_score (fst (analyze_inputs ?c0)) = DeviationText (Fin 0)"
    "progress_color (fst (analyze_inputs ?c0)) = GREEN"
    unfolding c1 by (simp_all add: show_result_def fgreater_def DEFAULT_THRESHOLD_def Let_def)
  have m: "model ?c2 \<noteq> None" and s: "scaler ?c2 \<noteq> None"
    unfolding c1 by (simp_all add: show_result_def m0 s0 Let_def)
  have p: "py_float (ascii ''25.0'' @ [31]) = None"
    by (simp add: float_eval)
  have h: "py_float (txt_temp ?c2) = None \<or> py_float (txt_hum ?c2) = None
           \<or> py_float (txt_press ?c2) = None \<or> py_float (txt_soil ?c2) = None"
    by (simp add: p)
  show ?thesis
    using p shown invalid_input_keeps_previous_result [OF m s h] by simp
qed

end
